theory Spec2Isabelle
  imports Complex_Main "HOL-Library.Multiset" "HOL-Library.Log_Nat"
begin

section \<open>Python values shared by the scripts\<close>

text \<open>
  Exceptions are values of \<open>py_exn\<close>; a computation that can raise returns a sum with the
  exception on the left.
\<close>

datatype py_exn = AttributeError | TypeError | ValueError | ZeroDivisionError | OverflowError

subsection \<open>Floats\<close>

text \<open>
  A Python float is an IEEE 754 binary64 number: a finite value, which is a rational, one of
  the two infinities, or \<open>nan\<close>. The two zeros are not told apart: the scripts compare
  floats, divide by floats that are not zero and print floats that are clamped before, and
  none of these sees the sign of a zero.
\<close>

datatype pyfloat = Finite rat | PosInf | NegInf | NaN

text \<open>Rounding to the nearest integer, ties to the even neighbour.\<close>

definition round_half_even :: "rat \<Rightarrow> int" where
  "round_half_even q =
     (let f = \<lfloor>q\<rfloor>; r = q - of_int f
      in if r < 1 / 2 then f else if 1 / 2 < r then f + 1 else if even f then f else f + 1)"

text \<open>
  The binary exponent of a positive rational \<open>a\<close>: the integer \<open>e\<close> with
  \<open>2^e \<le> a < 2^(e+1)\<close>, found from the bit lengths of numerator and denominator.
\<close>

definition ilog2 :: "rat \<Rightarrow> int" where
  "ilog2 a =
     (case quotient_of a of
        (n, d) \<Rightarrow> let k = bitlen n - bitlen d in if 2 powi k \<le> a then k else k - 1)"

text \<open>
  The binary64 number nearest to a rational, ties to the even significand: the significand
  has 53 bits, the spacing is \<open>2^(e - 52)\<close> for the exponent \<open>e\<close> of the value and
  \<open>2^(-1074)\<close> below \<open>2^(-1022)\<close>, and a result that reaches \<open>2^1024\<close> is infinite.
  Every result of an arithmetic operation on floats is rounded so.
\<close>

definition round64 :: "rat \<Rightarrow> pyfloat" where
  "round64 q =
     (if q = 0 then Finite 0
      else
        let a = \<bar>q\<bar>;
            ex = max (ilog2 a) (- 1022) - 52;
            v = of_int (round_half_even (a / 2 powi ex)) * 2 powi ex
        in if 2 powi 1024 \<le> v then (if q < 0 then NegInf else PosInf)
           else Finite (if q < 0 then - v else v))"

fun fl_neg :: "pyfloat \<Rightarrow> pyfloat" where
  "fl_neg (Finite a) = Finite (- a)"
| "fl_neg PosInf = NegInf"
| "fl_neg NegInf = PosInf"
| "fl_neg NaN = NaN"

fun fl_abs :: "pyfloat \<Rightarrow> pyfloat" where
  "fl_abs (Finite a) = Finite \<bar>a\<bar>"
| "fl_abs PosInf = PosInf"
| "fl_abs NegInf = PosInf"
| "fl_abs NaN = NaN"

fun fl_add :: "pyfloat \<Rightarrow> pyfloat \<Rightarrow> pyfloat" where
  "fl_add (Finite a) (Finite b) = round64 (a + b)"
| "fl_add NaN y = NaN"
| "fl_add x NaN = NaN"
| "fl_add PosInf NegInf = NaN"
| "fl_add NegInf PosInf = NaN"
| "fl_add PosInf y = PosInf"
| "fl_add NegInf y = NegInf"
| "fl_add x PosInf = PosInf"
| "fl_add x NegInf = NegInf"

definition fl_sub :: "pyfloat \<Rightarrow> pyfloat \<Rightarrow> pyfloat" where
  "fl_sub x y = fl_add x (fl_neg y)"

fun fl_mul :: "pyfloat \<Rightarrow> pyfloat \<Rightarrow> pyfloat" where
  "fl_mul (Finite a) (Finite b) = round64 (a * b)"
| "fl_mul NaN y = NaN"
| "fl_mul x NaN = NaN"
| "fl_mul (Finite a) y = (if a = 0 then NaN else if 0 < a then y else fl_neg y)"
| "fl_mul x (Finite b) = (if b = 0 then NaN else if 0 < b then x else fl_neg x)"
| "fl_mul PosInf y = y"
| "fl_mul NegInf y = fl_neg y"

text \<open>
  The quotient of IEEE 754 for a divisor that is not zero. Python never computes a quotient
  by zero (\<open>fl_div\<close> below raises before); the value \<open>nan\<close> given here for the divisor zero
  is not used by the scripts.
\<close>

fun fl_quot :: "pyfloat \<Rightarrow> pyfloat \<Rightarrow> pyfloat" where
  "fl_quot (Finite a) (Finite b) = (if b = 0 then NaN else round64 (a / b))"
| "fl_quot NaN y = NaN"
| "fl_quot x NaN = NaN"
| "fl_quot (Finite a) y = Finite 0"
| "fl_quot x (Finite b) = (if b = 0 then NaN else if 0 < b then x else fl_neg x)"
| "fl_quot x y = NaN"

text \<open>The expression \<open>x / y\<close> on two floats: a ZeroDivisionError when the divisor is zero.\<close>

definition fl_div :: "pyfloat \<Rightarrow> pyfloat \<Rightarrow> py_exn + pyfloat" where
  "fl_div x y = (if y = Finite 0 then Inl ZeroDivisionError else Inr (fl_quot x y))"

text \<open>The comparisons \<open>x < y\<close> and \<open>x <= y\<close>: false whenever an operand is \<open>nan\<close>.\<close>

fun fl_less :: "pyfloat \<Rightarrow> pyfloat \<Rightarrow> bool" where
  "fl_less (Finite a) (Finite b) = (a < b)"
| "fl_less NaN y = False"
| "fl_less x NaN = False"
| "fl_less NegInf y = (y \<noteq> NegInf)"
| "fl_less x PosInf = (x \<noteq> PosInf)"
| "fl_less x y = False"

fun fl_le :: "pyfloat \<Rightarrow> pyfloat \<Rightarrow> bool" where
  "fl_le (Finite a) (Finite b) = (a \<le> b)"
| "fl_le NaN y = False"
| "fl_le x NaN = False"
| "fl_le NegInf y = True"
| "fl_le x PosInf = True"
| "fl_le x y = False"

text \<open>
  A Python \<open>int\<close> in float arithmetic is converted to the nearest float, an OverflowError when
  that is infinite. In a comparison with a float the integer \<open>k\<close> is taken exactly; it is
  then written \<open>Finite (of_int k)\<close>.
\<close>

definition nearest_float :: "int \<Rightarrow> pyfloat" where
  "nearest_float k = round64 (of_int k)"

definition int_to_float :: "int \<Rightarrow> py_exn + pyfloat" where
  "int_to_float k =
     (case nearest_float k of
        Finite v \<Rightarrow> Inr (Finite v)
      | _ \<Rightarrow> Inl OverflowError)"

text \<open>The expressions \<open>x / k\<close> and \<open>x * k\<close> for a float \<open>x\<close> and an \<open>int\<close> \<open>k\<close>: the
  integer is converted first.\<close>

definition fl_div_int :: "pyfloat \<Rightarrow> int \<Rightarrow> py_exn + pyfloat" where
  "fl_div_int x k = (case int_to_float k of Inl e \<Rightarrow> Inl e | Inr d \<Rightarrow> fl_div x d)"

definition fl_mul_int :: "pyfloat \<Rightarrow> int \<Rightarrow> py_exn + pyfloat" where
  "fl_mul_int x k = (case int_to_float k of Inl e \<Rightarrow> Inl e | Inr d \<Rightarrow> Inr (fl_mul x d))"

text \<open>\<open>math.ceil\<close> of a float.\<close>

fun py_ceil :: "pyfloat \<Rightarrow> py_exn + int" where
  "py_ceil (Finite q) = Inr \<lceil>q\<rceil>"
| "py_ceil NaN = Inl ValueError"
| "py_ceil PosInf = Inl OverflowError"
| "py_ceil NegInf = Inl OverflowError"

text \<open>
  \<open>max(0.0, min(1.0, v))\<close>: \<open>min(a, b)\<close> is \<open>b\<close> when \<open>b < a\<close> and \<open>a\<close> otherwise,
  \<open>max(a, b)\<close> is \<open>b\<close> when \<open>b > a\<close> and \<open>a\<close> otherwise.
\<close>

definition py_min :: "pyfloat \<Rightarrow> pyfloat \<Rightarrow> pyfloat" where
  "py_min a b = (if fl_less b a then b else a)"

definition py_max :: "pyfloat \<Rightarrow> pyfloat \<Rightarrow> pyfloat" where
  "py_max a b = (if fl_less a b then b else a)"

subsection \<open>Texts of elements\<close>

text \<open>
  The text of an element of an annotation as \<open>float(elem.text)\<close> sees it: no text at all
  (\<open>None\<close>, a TypeError), a text that is no number (a ValueError), a decimal numeral with its
  value, which \<open>float\<close> rounds to the nearest float, or one of the texts for the infinities
  and for \<open>nan\<close>.
\<close>

datatype elem_text =
  NoText | Unparsable | Number rat | PlusInfinity | MinusInfinity | NotANumber

fun py_float :: "elem_text \<Rightarrow> py_exn + pyfloat" where
  "py_float NoText = Inl TypeError"
| "py_float Unparsable = Inl ValueError"
| "py_float (Number q) = Inr (round64 q)"
| "py_float PlusInfinity = Inr PosInf"
| "py_float MinusInfinity = Inr NegInf"
| "py_float NotANumber = Inr NaN"

text \<open>\<open>float(parent.find(tag).text)\<close>: \<open>find\<close> gives \<open>None\<close> for a missing child.\<close>

fun float_of_child :: "elem_text option \<Rightarrow> py_exn + pyfloat" where
  "float_of_child None = Inl AttributeError"
| "float_of_child (Some t) = py_float t"

subsection \<open>Decimal formatting\<close>

function show_nat :: "nat \<Rightarrow> string" where
  "show_nat n =
     (if n < 10 then [''0123456789'' ! n]
      else show_nat (n div 10) @ [''0123456789'' ! (n mod 10)])"
  by pat_completeness auto
termination
  by (relation "measure id") auto

declare show_nat.simps [simp del]

definition show_int :: "int \<Rightarrow> string" where
  "show_int i = (if i < 0 then ''-'' @ show_nat (nat (- i)) else show_nat (nat i))"

definition pad6 :: "string \<Rightarrow> string" where
  "pad6 s = drop (length s) ''000000'' @ s"

text \<open>
  The format specification \<open>:.6f\<close>: the exact value of the float, rounded to six decimals,
  ties to the even digit.
\<close>

fun format_6f :: "pyfloat \<Rightarrow> string" where
  "format_6f (Finite x) =
     (let n = nat (round_half_even (\<bar>x\<bar> * 1000000))
      in (if x < 0 then ''-'' else []) @ show_nat (n div 1000000) @ ''.''
           @ pad6 (show_nat (n mod 1000000)))"
| "format_6f PosInf = ''inf''"
| "format_6f NegInf = ''-inf''"
| "format_6f NaN = ''nan''"

text \<open>The shape of a value of the unit interval printed by \<open>:.6f\<close>: the digit 0 or 1, the point,
  and six digits.\<close>

definition is_digit :: "char \<Rightarrow> bool" where
  "is_digit c \<longleftrightarrow> c \<in> set ''0123456789''"

definition six_decimals :: "string \<Rightarrow> bool" where
  "six_decimals s \<longleftrightarrow>
     length s = 8 \<and> (hd s = CHR ''0'' \<or> hd s = CHR ''1'') \<and> s ! 1 = CHR ''.''
     \<and> list_all is_digit (drop 2 s)"

section \<open>VOC annotation documents\<close>

text \<open>
  A parsed annotation file, as far as the scripts read it. A child that \<open>find\<close> does not
  find is \<open>None\<close>. The width and height are the outcomes of \<open>int(size.find(...).text)\<close>.
  Objects are the \<open>object\<close> elements in document order, taken to be children of the root.
\<close>

record bndbox =
  xmin :: "elem_text option"
  ymin :: "elem_text option"
  xmax :: "elem_text option"
  ymax :: "elem_text option"

record xml_object =
  name :: "string option option"
  bndbox :: "bndbox option"

record img_size =
  width :: "py_exn + int"
  height :: "py_exn + int"

record annotation =
  img_size :: "img_size option"
  filename :: "string option option"
  objects :: "xml_object list"

datatype xml_file = Malformed | Document annotation

section \<open>VOC to YOLO converter (scripts/convert\_voc\_to\_yolo\_with\_splits.py)\<close>

text \<open>
  The class table. The names are the UTF-8 bytes of the four Chinese class names of the source:
  0 the control-frame marker, 1 "no screw" (the missing fastener), 2 "has screw" (the present
  fastener), 3 "circuit board" (the board body).
\<close>

definition name_marker :: string where
  "name_marker = [CHR 0xE6, CHR 0x8E, CHR 0xA7, CHR 0xE5, CHR 0x88, CHR 0xB6, CHR 0xE9, CHR 0x80,
     CHR 0x82, CHR 0xE5, CHR 0xBA, CHR 0x94, CHR 0xE6, CHR 0xA0, CHR 0x87, CHR 0xE8, CHR 0xAF,
     CHR 0x86]"

definition name_no_screw :: string where
  "name_no_screw = [CHR 0xE6, CHR 0x97, CHR 0xA0, CHR 0xE8, CHR 0x9E, CHR 0xBA, CHR 0xE4, CHR 0xB8,
     CHR 0x9D]"

definition name_has_screw :: string where
  "name_has_screw = [CHR 0xE6, CHR 0x9C, CHR 0x89, CHR 0xE8, CHR 0x9E, CHR 0xBA, CHR 0xE4, CHR 0xB8,
     CHR 0x9D]"

definition name_circuit_board :: string where
  "name_circuit_board = [CHR 0xE7, CHR 0x94, CHR 0xB5, CHR 0xE8, CHR 0xB7, CHR 0xAF, CHR 0xE6,
     CHR 0x9D, CHR 0xBF]"

definition CLASS_MAPPING :: "(int \<times> string) list" where
  "CLASS_MAPPING =
     [(0, name_marker), (1, name_no_screw), (2, name_has_screw), (3, name_circuit_board)]"

text \<open>
  The search loop over \<open>CLASS_MAPPING.items()\<close>: the id of the first entry whose name equals
  the object's name; a name element without text equals no entry.
\<close>

definition class_id_of :: "string option \<Rightarrow> int option" where
  "class_id_of cls_name =
     map_option fst (find (\<lambda>(id_val, name_val). Some name_val = cls_name) CLASS_MAPPING)"

text \<open>
  One pass of the loop over the objects: a line is written, the object is skipped, or an
  exception leaves the loop. The arithmetic is that of Python floats; the division by the
  literal \<open>2.0\<close> cannot raise, the divisions by the width and by the height convert the
  integer first and raise for zero.
\<close>

datatype write_result = Written string | Skipped | Raised py_exn

definition write_object :: "int \<Rightarrow> int \<Rightarrow> xml_object \<Rightarrow> write_result" where
  "write_object img_width img_height obj =
     (case name obj of
        None \<Rightarrow> Raised AttributeError
      | Some cls_name \<Rightarrow>
     (case class_id_of cls_name of
        None \<Rightarrow> Skipped
      | Some cls_id \<Rightarrow>
     (case bndbox obj of
        None \<Rightarrow> Skipped
      | Some bbox \<Rightarrow>
     (case float_of_child (xmin bbox) of Inl e \<Rightarrow> Raised e | Inr xmin_val \<Rightarrow>
     (case float_of_child (ymin bbox) of Inl e \<Rightarrow> Raised e | Inr ymin_val \<Rightarrow>
     (case float_of_child (xmax bbox) of Inl e \<Rightarrow> Raised e | Inr xmax_val \<Rightarrow>
     (case float_of_child (ymax bbox) of Inl e \<Rightarrow> Raised e | Inr ymax_val \<Rightarrow>
     (case fl_div_int (fl_quot (fl_add xmin_val xmax_val) (Finite 2)) img_width of
        Inl e \<Rightarrow> Raised e | Inr x_center \<Rightarrow>
     (case fl_div_int (fl_quot (fl_add ymin_val ymax_val) (Finite 2)) img_height of
        Inl e \<Rightarrow> Raised e | Inr y_center \<Rightarrow>
     (case fl_div_int (fl_sub xmax_val xmin_val) img_width of
        Inl e \<Rightarrow> Raised e | Inr box_width \<Rightarrow>
     (case fl_div_int (fl_sub ymax_val ymin_val) img_height of
        Inl e \<Rightarrow> Raised e | Inr box_height \<Rightarrow>
        let x_center = py_max (Finite 0) (py_min (Finite 1) x_center);
            y_center = py_max (Finite 0) (py_min (Finite 1) y_center);
            box_width = py_max (Finite 0) (py_min (Finite 1) box_width);
            box_height = py_max (Finite 0) (py_min (Finite 1) box_height)
        in Written (show_int cls_id @ '' '' @ format_6f x_center @ '' '' @ format_6f y_center
                      @ '' '' @ format_6f box_width @ '' '' @ format_6f box_height))))))))))))"

text \<open>
  The loop \<open>for obj in root.iter('object')\<close> inside the \<open>with\<close> block: the lines written,
  and the exception that ended the loop, if any. Lines written before an exception stay in
  the file.
\<close>

fun write_objects :: "int \<Rightarrow> int \<Rightarrow> xml_object list \<Rightarrow> string list \<times> py_exn option" where
  "write_objects img_width img_height [] = ([], None)"
| "write_objects img_width img_height (obj # objs) =
     (case write_object img_width img_height obj of
        Raised e \<Rightarrow> ([], Some e)
      | Skipped \<Rightarrow> write_objects img_width img_height objs
      | Written l \<Rightarrow>
          (case write_objects img_width img_height objs of (ls, r) \<Rightarrow> (l # ls, r)))"

text \<open>
  The source side of a conversion: the annotation directory (file base name to file, \<open>None\<close>
  where \<open>os.path.exists\<close> fails) and the image directory (image file name to content).
  Contents of image files are byte strings.
\<close>

record voc_dataset =
  annotations :: "string \<rightharpoonup> xml_file"
  images :: "string \<rightharpoonup> string"

text \<open>What \<open>process_split\<close> prints about a file, by file base name or image name. The
  warnings about the objects it skips inside a file are left out.\<close>

datatype message =
    XmlMissing string
  | SizeMissing string
  | FilenameMissing string
  | ImageMissing string
  | ProcessingError string

text \<open>The destination of one split and the counter the function returns.\<close>

record split_output =
  label_store :: "string \<rightharpoonup> string list"
  image_store :: "string \<rightharpoonup> string"
  printed :: "message list"
  processed_count :: nat

definition failed_with :: "string \<Rightarrow> split_output \<Rightarrow> split_output" where
  "failed_with file_base out = out\<lparr>printed := printed out @ [ProcessingError file_base]\<rparr>"

text \<open>\<open>os.path.basename\<close>: what follows the last slash.\<close>

definition basename :: "string \<Rightarrow> string" where
  "basename p = rev (takeWhile (\<lambda>c. c \<noteq> CHR ''/'') (rev p))"

text \<open>
  The body of the loop over \<open>file_list\<close>, for one file base name. \<open>shutil.copy2\<close> into a
  directory stores the copy under the base name of its source.
\<close>

definition process_file :: "voc_dataset \<Rightarrow> split_output \<Rightarrow> string \<Rightarrow> split_output" where
  "process_file voc out file_base =
     (case annotations voc file_base of
        None \<Rightarrow> out\<lparr>printed := printed out @ [XmlMissing file_base]\<rparr>
      | Some Malformed \<Rightarrow> failed_with file_base out
      | Some (Document xml_root) \<Rightarrow>
     (case img_size xml_root of
        None \<Rightarrow> out\<lparr>printed := printed out @ [SizeMissing file_base]\<rparr>
      | Some sz \<Rightarrow>
     (case width sz of Inl e \<Rightarrow> failed_with file_base out | Inr img_width \<Rightarrow>
     (case height sz of Inl e \<Rightarrow> failed_with file_base out | Inr img_height \<Rightarrow>
     (case filename xml_root of
        None \<Rightarrow> failed_with file_base out
      | Some None \<Rightarrow> out\<lparr>printed := printed out @ [FilenameMissing file_base]\<rparr>
      | Some (Some image_name) \<Rightarrow>
     (case write_objects img_width img_height (objects xml_root) of (ls, raised) \<Rightarrow>
        let out1 = out\<lparr>label_store := (label_store out)(file_base @ ''.txt'' \<mapsto> ls)\<rparr>
        in (case raised of
              Some e \<Rightarrow> failed_with file_base out1
            | None \<Rightarrow>
                (case images voc image_name of
                   Some content \<Rightarrow>
                     out1\<lparr>image_store := (image_store out1)(basename image_name \<mapsto> content),
                          processed_count := processed_count out1 + 1\<rparr>
                 | None \<Rightarrow> out1\<lparr>printed := printed out1 @ [ImageMissing image_name]\<rparr>))))))))"

fun process_split :: "voc_dataset \<Rightarrow> split_output \<Rightarrow> string list \<Rightarrow> split_output" where
  "process_split voc out [] = out"
| "process_split voc out (file_base # file_list) =
     process_split voc (process_file voc out file_base) file_list"

text \<open>
  The line of the specification for a record with class id \<open>c\<close> and box
  \<open>(x0, y0, x1, y1)\<close>, four finite floats, on an image of \<open>w\<close> by \<open>h\<close> pixels: the centre
  \<open>(lo + hi) / 2 / extent\<close> and the size \<open>(hi - lo) / extent\<close> along each axis, in float
  arithmetic with the extent as the nearest float, each clamped to the unit interval after
  the division and printed with six decimals.
\<close>

definition clamp01 :: "pyfloat \<Rightarrow> pyfloat" where
  "clamp01 v = (if fl_less v (Finite 0) then Finite 0 else if fl_less (Finite 1) v then Finite 1 else v)"

definition norm_center :: "rat \<Rightarrow> rat \<Rightarrow> int \<Rightarrow> pyfloat" where
  "norm_center lo hi extent =
     clamp01 (fl_quot (fl_quot (fl_add (Finite lo) (Finite hi)) (Finite 2)) (nearest_float extent))"

definition norm_size :: "rat \<Rightarrow> rat \<Rightarrow> int \<Rightarrow> pyfloat" where
  "norm_size lo hi extent =
     clamp01 (fl_quot (fl_sub (Finite hi) (Finite lo)) (nearest_float extent))"

definition spec_line :: "int \<Rightarrow> rat \<Rightarrow> rat \<Rightarrow> rat \<Rightarrow> rat \<Rightarrow> int \<Rightarrow> int \<Rightarrow> string" where
  "spec_line c x0 y0 x1 y1 w h =
     show_int c @ '' '' @ format_6f (norm_center x0 x1 w)
       @ '' '' @ format_6f (norm_center y0 y1 h)
       @ '' '' @ format_6f (norm_size x0 x1 w)
       @ '' '' @ format_6f (norm_size y0 y1 h)"

section \<open>Bounding-box repair scripts\<close>

subsection \<open>scripts/fix\_invalid\_bbox.py\<close>

text \<open>The chain of tests that sets \<open>is_invalid\<close>, on floats (\<open>a >= b\<close> is \<open>b <= a\<close>); the
  width and the height are integers, compared exactly.\<close>

definition is_invalid ::
    "int \<Rightarrow> int \<Rightarrow> pyfloat \<Rightarrow> pyfloat \<Rightarrow> pyfloat \<Rightarrow> pyfloat \<Rightarrow> bool" where
  "is_invalid img_width img_height xmin_val ymin_val xmax_val ymax_val =
     (if fl_le xmax_val xmin_val then True
      else if fl_le ymax_val ymin_val then True
      else if fl_less xmin_val (Finite 0) \<or> fl_less ymin_val (Finite 0)
              \<or> fl_less (Finite (of_int img_width)) xmax_val
              \<or> fl_less (Finite (of_int img_height)) ymax_val then True
      else if fl_less (fl_mul (fl_sub xmax_val xmin_val) (fl_sub ymax_val ymin_val)) (Finite 4)
        then True
      else False)"

text \<open>
  One pass of the loop over the objects: whether the object is put on \<open>objects_to_remove\<close>.
  A ValueError of a conversion is caught inside the loop and removes the object; any other
  exception leaves the function.
\<close>

definition inspect_object :: "int \<Rightarrow> int \<Rightarrow> xml_object \<Rightarrow> py_exn + bool" where
  "inspect_object img_width img_height obj =
     (case bndbox obj of
        None \<Rightarrow> Inr False
      | Some bbox \<Rightarrow>
     (case (xmin bbox, ymin bbox, xmax bbox, ymax bbox) of
        (Some xmin_t, Some ymin_t, Some xmax_t, Some ymax_t) \<Rightarrow>
          (case py_float xmin_t of
             Inl e \<Rightarrow> if e = ValueError then Inr True else Inl e
           | Inr xmin_val \<Rightarrow>
          (case py_float ymin_t of
             Inl e \<Rightarrow> if e = ValueError then Inr True else Inl e
           | Inr ymin_val \<Rightarrow>
          (case py_float xmax_t of
             Inl e \<Rightarrow> if e = ValueError then Inr True else Inl e
           | Inr xmax_val \<Rightarrow>
          (case py_float ymax_t of
             Inl e \<Rightarrow> if e = ValueError then Inr True else Inl e
           | Inr ymax_val \<Rightarrow>
               Inr (is_invalid img_width img_height xmin_val ymin_val xmax_val ymax_val)))))
      | _ \<Rightarrow> Inr False))"

text \<open>The loop: the objects that stay, in order, or the exception that left the function.\<close>

fun remove_invalid :: "int \<Rightarrow> int \<Rightarrow> xml_object list \<Rightarrow> py_exn + xml_object list" where
  "remove_invalid img_width img_height [] = Inr []"
| "remove_invalid img_width img_height (obj # objs) =
     (case inspect_object img_width img_height obj of
        Inl e \<Rightarrow> Inl e
      | Inr rm \<Rightarrow>
          (case remove_invalid img_width img_height objs of
             Inl e \<Rightarrow> Inl e
           | Inr kept \<Rightarrow> Inr (if rm then kept else obj # kept)))"


subsection \<open>scripts/fix\_voc\_labels.py\<close>




subsection \<open>Annotation files both repairs can read\<close>

text \<open>
  A coordinate that is present and whose text \<open>float\<close> accepts, and an object whose box,
  when it has one, has its four coordinates so. On a file of such objects neither repair
  function meets an exception inside its loop.
\<close>

definition parses :: "elem_text option \<Rightarrow> bool" where
  "parses t = (case float_of_child t of Inl e \<Rightarrow> False | Inr v \<Rightarrow> True)"


section \<open>Dataset checker (scripts/check\_dataset.py)\<close>

subsection \<open>Strings and file names\<close>

text \<open>
  Strings are byte strings. The white space of \<open>str.split\<close> and \<open>str.strip\<close> is taken
  in the ASCII range: tab, line feed, vertical tab, form feed, carriage return, the four
  separators \<open>0x1C\<close> to \<open>0x1F\<close>, and the space.
\<close>

definition is_space :: "char \<Rightarrow> bool" where
  "is_space c \<longleftrightarrow>
     c \<in> set [CHR 0x09, CHR 0x0A, CHR 0x0B, CHR 0x0C, CHR 0x0D,
              CHR 0x1C, CHR 0x1D, CHR 0x1E, CHR 0x1F, CHR '' '']"

definition py_strip :: "string \<Rightarrow> string" where
  "py_strip s = rev (dropWhile is_space (rev (dropWhile is_space s)))"

text \<open>\<open>str.split()\<close>: the maximal runs of characters that are not white space; \<open>cur\<close> is
  the run being read, reversed.\<close>

fun split_from :: "string \<Rightarrow> string \<Rightarrow> string list" where
  "split_from cur [] = (if cur = [] then [] else [rev cur])"
| "split_from cur (c # cs) =
     (if is_space c then (if cur = [] then split_from [] cs else rev cur # split_from [] cs)
      else split_from (c # cur) cs)"

definition py_split :: "string \<Rightarrow> string list" where
  "py_split s = split_from [] s"

definition endswith :: "string \<Rightarrow> string \<Rightarrow> bool" where
  "endswith s suffix \<longleftrightarrow>
     length suffix \<le> length s \<and> drop (length s - length suffix) s = suffix"

text \<open>\<open>str.lower\<close> on the ASCII letters.\<close>

definition lower_char :: "char \<Rightarrow> char" where
  "lower_char c =
     (case map_of (zip ''ABCDEFGHIJKLMNOPQRSTUVWXYZ'' ''abcdefghijklmnopqrstuvwxyz'') c of
        Some l \<Rightarrow> l
      | None \<Rightarrow> c)"

definition lower :: "string \<Rightarrow> string" where
  "lower s = map lower_char s"

definition is_image_name :: "string \<Rightarrow> bool" where
  "is_image_name f \<longleftrightarrow>
     endswith (lower f) ''.jpg'' \<or> endswith (lower f) ''.jpeg'' \<or> endswith (lower f) ''.png''"

text \<open>
  \<open>os.path.splitext(f)[0]\<close> for a name without directory separators: the name is cut at its
  last dot, unless only dots stand before that dot.
\<close>

definition rfind_dot :: "string \<Rightarrow> nat option" where
  "rfind_dot p =
     (case dropWhile (\<lambda>c. c \<noteq> CHR ''.'') (rev p) of
        [] \<Rightarrow> None
      | r \<Rightarrow> Some (length r - 1))"

definition splitext_root :: "string \<Rightarrow> string" where
  "splitext_root p =
     (case rfind_dot p of
        None \<Rightarrow> p
      | Some dotIndex \<Rightarrow>
          if list_ex (\<lambda>c. c \<noteq> CHR ''.'') (take dotIndex p) then take dotIndex p else p)"

subsection \<open>Label lines\<close>

text \<open>The test \<open>0 <= v <= 1\<close>.\<close>

fun in_unit :: "pyfloat \<Rightarrow> bool" where
  "in_unit (Finite q) = (0 \<le> q \<and> q \<le> 1)"
| "in_unit PosInf = False"
| "in_unit NegInf = False"
| "in_unit NaN = False"

text \<open>
  The conversions \<open>int(token)\<close> and \<open>float(token)\<close> of Python: \<open>None\<close> stands for a
  ValueError. They are parameters of the checker.
\<close>

record conversions =
  to_int :: "string \<Rightarrow> int option"
  to_float :: "string \<Rightarrow> pyfloat option"

text \<open>One pass of the loop over the lines: the line is counted for a class, with the box
  size recorded, or the file is put on \<open>error_files\<close>.\<close>

datatype line_result = Counted int pyfloat pyfloat | Flagged

definition check_line :: "conversions \<Rightarrow> string \<Rightarrow> line_result" where
  "check_line conv line =
     (let parts = py_split (py_strip line) in
      if length parts \<noteq> 5 then Flagged
      else
     (case to_int conv (parts ! 0) of None \<Rightarrow> Flagged | Some cls_id \<Rightarrow>
     (case to_float conv (parts ! 1) of None \<Rightarrow> Flagged | Some x_center \<Rightarrow>
     (case to_float conv (parts ! 2) of None \<Rightarrow> Flagged | Some y_center \<Rightarrow>
     (case to_float conv (parts ! 3) of None \<Rightarrow> Flagged | Some box_width \<Rightarrow>
     (case to_float conv (parts ! 4) of None \<Rightarrow> Flagged | Some box_height \<Rightarrow>
        if cls_id \<notin> set (map fst CLASS_MAPPING) then Flagged
        else if \<not> (in_unit x_center \<and> in_unit y_center \<and> in_unit box_width
                    \<and> in_unit box_height) then Flagged
        else Counted cls_id box_width box_height))))))"

text \<open>The counters of the audit: the class distribution (a \<open>Counter\<close>, zero where nothing was
  counted), the box sizes by class, and \<open>error_files\<close>, one entry for every flagged line.\<close>

record audit =
  class_distribution :: "int \<Rightarrow> nat"
  bbox_stats :: "int \<Rightarrow> (pyfloat \<times> pyfloat) list"
  error_files :: "string list"

definition empty_audit :: audit where
  "empty_audit = \<lparr>class_distribution = (\<lambda>c. 0), bbox_stats = (\<lambda>c. []), error_files = []\<rparr>"

definition note_line :: "string \<Rightarrow> audit \<Rightarrow> line_result \<Rightarrow> audit" where
  "note_line label_file a r =
     (case r of
        Flagged \<Rightarrow> a\<lparr>error_files := error_files a @ [label_file]\<rparr>
      | Counted cls_id box_width box_height \<Rightarrow>
          a\<lparr>class_distribution := (class_distribution a)(cls_id := class_distribution a cls_id + 1),
            bbox_stats := (bbox_stats a)(cls_id := bbox_stats a cls_id @ [(box_width, box_height)])\<rparr>)"

fun check_lines :: "conversions \<Rightarrow> string \<Rightarrow> string list \<Rightarrow> audit \<Rightarrow> audit" where
  "check_lines conv label_file [] a = a"
| "check_lines conv label_file (line # lines) a =
     check_lines conv label_file lines (note_line label_file a (check_line conv line))"

subsection \<open>The dataset directory and the check\<close>

text \<open>
  A dataset directory: the names in \<open>images\<close> and in \<open>labels\<close> as \<open>os.listdir\<close> gives them
  (\<open>None\<close> where the subdirectory does not exist), and the lines of each file of \<open>labels\<close>
  (\<open>None\<close> where opening or decoding the file fails).
\<close>

record dataset_dir =
  images_dir :: "string list option"
  labels_dir :: "string list option"
  read_lines :: "string \<Rightarrow> string list option"

text \<open>The Python sets of keys are lists without repetition; the order in which Python walks
  a set is not specified, and nothing below depends on it.\<close>

definition image_keys :: "string list \<Rightarrow> string list" where
  "image_keys names = remdups (map splitext_root (filter is_image_name names))"

definition label_keys :: "string list \<Rightarrow> string list" where
  "label_keys names = remdups (map splitext_root (filter (\<lambda>f. endswith f ''.txt'') names))"

definition check_label_file :: "conversions \<Rightarrow> dataset_dir \<Rightarrow> audit \<Rightarrow> string \<Rightarrow> audit" where
  "check_label_file conv ds a label_file =
     (case read_lines ds (label_file @ ''.txt'') of
        None \<Rightarrow> a\<lparr>error_files := error_files a @ [label_file]\<rparr>
      | Some lines \<Rightarrow> check_lines conv label_file lines a)"

text \<open>What the check prints about the pairing and in its summary: a warning carries the size
  of the set and the first five members shown.\<close>

datatype check_message =
    ImagesDirMissing
  | LabelsDirMissing
  | WarnMissingImages nat "string list"
  | WarnMissingLabels nat "string list"
  | CheckPassed
  | ProblemMissingImages nat
  | ProblemMissingLabels nat
  | ProblemErrorFiles nat

record check_outcome =
  passed :: bool
  report :: "check_message list"
  counters :: audit

definition pairing_warnings :: "string list \<Rightarrow> string list \<Rightarrow> check_message list" where
  "pairing_warnings missing_images missing_labels =
     (if missing_images \<noteq> []
      then [WarnMissingImages (length missing_images) (take 5 missing_images)] else [])
     @ (if missing_labels \<noteq> []
        then [WarnMissingLabels (length missing_labels) (take 5 missing_labels)] else [])"

text \<open>The summary at the end of the function, which decides the value returned.\<close>

definition summary :: "string list \<Rightarrow> string list \<Rightarrow> audit \<Rightarrow> check_outcome" where
  "summary missing_images missing_labels a =
     (if missing_images = [] \<and> missing_labels = [] \<and> error_files a = []
      then \<lparr>passed = True,
            report = pairing_warnings missing_images missing_labels @ [CheckPassed],
            counters = a\<rparr>
      else \<lparr>passed = False,
            report = pairing_warnings missing_images missing_labels
              @ (if missing_images \<noteq> [] then [ProblemMissingImages (length missing_images)]
                 else [])
              @ (if missing_labels \<noteq> [] then [ProblemMissingLabels (length missing_labels)]
                 else [])
              @ (if error_files a \<noteq> []
                 then [ProblemErrorFiles (length (remdups (error_files a)))] else []),
            counters = a\<rparr>)"

definition check_yolo_dataset :: "conversions \<Rightarrow> dataset_dir \<Rightarrow> check_outcome" where
  "check_yolo_dataset conv ds =
     (case images_dir ds of
        None \<Rightarrow> \<lparr>passed = False, report = [ImagesDirMissing], counters = empty_audit\<rparr>
      | Some image_names \<Rightarrow>
     (case labels_dir ds of
        None \<Rightarrow> \<lparr>passed = False, report = [LabelsDirMissing], counters = empty_audit\<rparr>
      | Some label_names \<Rightarrow>
          let image_files = image_keys image_names;
              label_files = label_keys label_names;
              missing_images = filter (\<lambda>k. k \<notin> set image_files) label_files;
              missing_labels = filter (\<lambda>k. k \<notin> set label_files) image_files;
              common_files = filter (\<lambda>k. k \<in> set label_files) image_files;
              a = foldl (check_label_file conv ds) empty_audit common_files
          in summary missing_images missing_labels a))"

text \<open>The exit code of \<open>main\<close>: 0 when the check succeeds, 1 otherwise.\<close>

definition exit_code :: "conversions \<Rightarrow> dataset_dir \<Rightarrow> int" where
  "exit_code conv ds = (if passed (check_yolo_dataset conv ds) then 0 else 1)"

text \<open>
  The three sets of the specification, for any directory: the label keys without an image,
  the image keys without a label, and the files flagged as error files. A subdirectory that
  does not exist holds no file.
\<close>

definition names_in :: "string list option \<Rightarrow> string list" where
  "names_in dir = (case dir of None \<Rightarrow> [] | Some names \<Rightarrow> names)"

definition labels_without_image :: "dataset_dir \<Rightarrow> string list" where
  "labels_without_image ds =
     filter (\<lambda>k. k \<notin> set (image_keys (names_in (images_dir ds))))
       (label_keys (names_in (labels_dir ds)))"

definition images_without_label :: "dataset_dir \<Rightarrow> string list" where
  "images_without_label ds =
     filter (\<lambda>k. k \<notin> set (label_keys (names_in (labels_dir ds))))
       (image_keys (names_in (images_dir ds)))"

definition paired_keys :: "dataset_dir \<Rightarrow> string list" where
  "paired_keys ds =
     filter (\<lambda>k. k \<in> set (label_keys (names_in (labels_dir ds))))
       (image_keys (names_in (images_dir ds)))"

definition flagged_files :: "conversions \<Rightarrow> dataset_dir \<Rightarrow> string list" where
  "flagged_files conv ds =
     error_files (foldl (check_label_file conv ds) empty_audit (paired_keys ds))"

text \<open>
  A line in the words of the specification: exactly five tokens separated by white space, the
  first a class id of the table, the other four floats in the unit interval. The class of
  such a line is the id its first token stands for.
\<close>

definition well_formed_line :: "conversions \<Rightarrow> string \<Rightarrow> bool" where
  "well_formed_line conv line \<longleftrightarrow>
     (case py_split (py_strip line) of
        [t0, t1, t2, t3, t4] \<Rightarrow>
          (case to_int conv t0 of None \<Rightarrow> False | Some c \<Rightarrow> c \<in> {0, 1, 2, 3})
          \<and> list_all (\<lambda>t. case to_float conv t of None \<Rightarrow> False | Some v \<Rightarrow> in_unit v)
                [t1, t2, t3, t4]
      | _ \<Rightarrow> False)"

definition line_class :: "conversions \<Rightarrow> string \<Rightarrow> int option" where
  "line_class conv line =
     (if well_formed_line conv line then to_int conv (hd (py_split (py_strip line))) else None)"

text \<open>
  Conversions for a fragment of Python's literals, enough to run the checker on examples:
  unsigned decimal integers, and unsigned decimals with a fractional part.
\<close>

definition digit_value :: "char \<Rightarrow> nat option" where
  "digit_value c = map_of (zip ''0123456789'' [0, 1, 2, 3, 4, 5, 6, 7, 8, 9]) c"

fun digits_value :: "nat \<Rightarrow> string \<Rightarrow> nat option" where
  "digits_value acc [] = Some acc"
| "digits_value acc (c # cs) =
     (case digit_value c of None \<Rightarrow> None | Some d \<Rightarrow> digits_value (10 * acc + d) cs)"

definition dec_int :: "string \<Rightarrow> int option" where
  "dec_int s = (if s = [] then None else map_option int (digits_value 0 s))"

definition dec_float :: "string \<Rightarrow> pyfloat option" where
  "dec_float s =
     (let ip = takeWhile (\<lambda>c. c \<noteq> CHR ''.'') s; fp = drop (length ip + 1) s in
      if ip = [] \<and> fp = [] then None
      else
        (case (digits_value 0 ip, digits_value 0 fp) of
           (Some i, Some f) \<Rightarrow> Some (Finite (of_nat i + of_nat f / 10 ^ length fp))
         | _ \<Rightarrow> None))"

definition dec_conversions :: conversions where
  "dec_conversions = \<lparr>to_int = dec_int, to_float = dec_float\<rparr>"

section \<open>Dataset splitter (scripts/split\_dataset.py)\<close>

subsection \<open>The library split\<close>

text \<open>
  \<open>train_test_split(arrays, test_size, random_state)\<close> of scikit-learn, for a list and a
  float \<open>test_size\<close>, after its documentation and its function \<open>_validate_shuffle_split\<close>:
  a \<open>test_size\<close> with \<open>test_size <= 0\<close> or \<open>test_size >= 1\<close> is a ValueError; the test
  part has \<open>n_test = ceil(test_size * n_samples)\<close> elements, a product of floats, and the
  train part \<open>n_train = n_samples - n_test\<close>; an empty train part is a ValueError; the
  elements are selected by the permutation of the indices that the seeded generator draws,
  \<open>permutation[:n_test]\<close> for the test part and \<open>permutation[n_test:(n_test + n_train)]\<close>
  for the train part. The function \<open>perm\<close> gives that permutation for each length.
\<close>

definition train_test_split ::
    "(nat \<Rightarrow> nat list) \<Rightarrow> 'a list \<Rightarrow> pyfloat \<Rightarrow> py_exn + ('a list \<times> 'a list)" where
  "train_test_split perm arrays test_size =
     (let n_samples = length arrays in
      if fl_le test_size (Finite 0) \<or> fl_le (Finite 1) test_size then Inl ValueError
      else
        (case fl_mul_int test_size (int n_samples) of Inl e \<Rightarrow> Inl e | Inr product \<Rightarrow>
        (case py_ceil product of Inl e \<Rightarrow> Inl e | Inr n_test \<Rightarrow>
           let n_train = int n_samples - n_test
           in if n_train = 0 then Inl ValueError
              else
                let permutation = perm n_samples;
                    ind_test = take (nat n_test) permutation;
                    ind_train = drop (nat n_test) (take (nat (n_test + n_train)) permutation)
                in Inr (map (\<lambda>i. arrays ! i) ind_train, map (\<lambda>i. arrays ! i) ind_test))))"

subsection \<open>The assignment\<close>

text \<open>
  \<open>random.shuffle\<close> uses the generator of the module, which the script never seeds: the
  permutation it applies differs from run to run. It is the parameter \<open>rng\<close>, by length;
  \<open>perm42\<close> is the permutation of the generator seeded with 42.
\<close>

definition shuffle :: "(nat \<Rightarrow> nat list) \<Rightarrow> 'a list \<Rightarrow> 'a list" where
  "shuffle rng xs = map (\<lambda>i. xs ! i) (rng (length xs))"

text \<open>
  The part of \<open>split_yolo_dataset\<close> that decides the three lists. The ratios are floats and
  every sum and quotient of them is rounded; the literal \<open>1e-5\<close> is the float nearest to it.
\<close>

definition assign_splits ::
    "(nat \<Rightarrow> nat list) \<Rightarrow> (nat \<Rightarrow> nat list) \<Rightarrow> string list \<Rightarrow> pyfloat \<Rightarrow> pyfloat \<Rightarrow> pyfloat
      \<Rightarrow> py_exn + (string list \<times> string list \<times> string list)" where
  "assign_splits rng perm42 image_files train_ratio val_ratio test_ratio =
     (let total_ratio = fl_add (fl_add train_ratio val_ratio) test_ratio in
      if fl_less (round64 (1 / 100000)) (fl_abs (fl_sub total_ratio (Finite 1))) then Inl ValueError
      else
        let shuffled = shuffle rng image_files in
        (case train_test_split perm42 shuffled (fl_add val_ratio test_ratio) of
           Inl e \<Rightarrow> Inl e
         | Inr (train_files, temp_files) \<Rightarrow>
             let val_test_ratio = fl_add val_ratio test_ratio in
             (case fl_div val_ratio val_test_ratio of
                Inl e \<Rightarrow> Inl e
              | Inr val_ratio_adjusted \<Rightarrow>
             (case fl_div test_ratio val_test_ratio of
                Inl e \<Rightarrow> Inl e
              | Inr test_ratio_adjusted \<Rightarrow>
             (case train_test_split perm42 temp_files test_ratio_adjusted of
                Inl e \<Rightarrow> Inl e
              | Inr (val_files, test_files) \<Rightarrow> Inr (train_files, val_files, test_files))))))"

text \<open>A permutation source is sound when it answers each length with a permutation of the
  indices below it.\<close>

definition permutes_indices :: "(nat \<Rightarrow> nat list) \<Rightarrow> bool" where
  "permutes_indices perm \<longleftrightarrow> (\<forall>n. mset (perm n) = mset [0..<n])"

definition identity_perm :: "nat \<Rightarrow> nat list" where
  "identity_perm n = [0..<n]"

definition rotate_perm :: "nat \<Rightarrow> nat list" where
  "rotate_perm n = rotate1 [0..<n]"

subsection \<open>Copying the files of a split\<close>

text \<open>The input directory (file name to content, for images and for labels) and the
  directories of one output split, with the warnings printed for missing labels.\<close>

record yolo_input =
  input_images :: "string \<rightharpoonup> string"
  input_labels :: "string \<rightharpoonup> string"

record split_dir =
  split_images :: "string \<rightharpoonup> string"
  split_labels :: "string \<rightharpoonup> string"
  label_warnings :: "string list"

definition image_extensions :: "string list" where
  "image_extensions = [''.jpg'', ''.jpeg'', ''.png'', ''.JPG'', ''.JPEG'', ''.PNG'']"

text \<open>The loop over the extensions: the first candidate that exists is copied to the base
  name with \<open>.jpg\<close>, and the loop is left.\<close>

fun copy_image :: "yolo_input \<Rightarrow> string \<Rightarrow> string list \<Rightarrow> split_dir \<Rightarrow> split_dir" where
  "copy_image inp file_base [] out = out"
| "copy_image inp file_base (ext # exts) out =
     (case input_images inp (file_base @ ext) of
        Some content \<Rightarrow> out\<lparr>split_images := (split_images out)(file_base @ ''.jpg'' \<mapsto> content)\<rparr>
      | None \<Rightarrow> copy_image inp file_base exts out)"

definition copy_label :: "yolo_input \<Rightarrow> string \<Rightarrow> split_dir \<Rightarrow> split_dir" where
  "copy_label inp file_base out =
     (case input_labels inp (file_base @ ''.txt'') of
        Some content \<Rightarrow> out\<lparr>split_labels := (split_labels out)(file_base @ ''.txt'' \<mapsto> content)\<rparr>
      | None \<Rightarrow> out\<lparr>label_warnings := label_warnings out @ [file_base @ ''.txt'']\<rparr>)"

fun copy_files :: "yolo_input \<Rightarrow> string list \<Rightarrow> split_dir \<Rightarrow> split_dir" where
  "copy_files inp [] out = out"
| "copy_files inp (file_base # files) out =
     copy_files inp files (copy_label inp file_base (copy_image inp file_base image_extensions out))"

text \<open>The candidate that the loop over the extensions finds: the first one that exists.\<close>

definition first_existing :: "yolo_input \<Rightarrow> string \<Rightarrow> string list \<Rightarrow> string option" where
  "first_existing inp file_base exts = find (\<lambda>e. input_images inp (file_base @ e) \<noteq> None) exts"

definition empty_split :: split_dir where
  "empty_split = \<lparr>split_images = Map.empty, split_labels = Map.empty, label_warnings = []\<rparr>"

text \<open>
  The whole function on the names listed in the input image directory: the three output
  splits (train, val, test), or the exception raised before anything is written.
\<close>

definition split_yolo_dataset ::
    "(nat \<Rightarrow> nat list) \<Rightarrow> (nat \<Rightarrow> nat list) \<Rightarrow> string list \<Rightarrow> yolo_input
      \<Rightarrow> pyfloat \<Rightarrow> pyfloat \<Rightarrow> pyfloat \<Rightarrow> py_exn + (split_dir \<times> split_dir \<times> split_dir)" where
  "split_yolo_dataset rng perm42 listing inp train_ratio val_ratio test_ratio =
     (let image_files = map splitext_root (filter is_image_name listing) in
      case assign_splits rng perm42 image_files train_ratio val_ratio test_ratio of
        Inl e \<Rightarrow> Inl e
      | Inr (train_files, val_files, test_files) \<Rightarrow>
          Inr (copy_files inp train_files empty_split,
               copy_files inp val_files empty_split,
               copy_files inp test_files empty_split))"

section \<open>PCB status rule (src/infer.py)\<close>

text \<open>
  A detection as the library hands it to \<open>_analyze_pcb_status\<close>: only the class is read,
  through \<open>int(box.cls[0])\<close>; \<open>cls\<close> is that integer.
\<close>

record detection =
  cls :: int
  conf :: rat

text \<open>
  The result object: it may lack the attribute \<open>boxes\<close>, carry \<open>boxes = None\<close>, or carry
  the (possibly empty) sequence of detections.
\<close>

datatype detection_result = NoBoxesAttr | BoxesNone | Boxes "detection list"

text \<open>The loop over the boxes, threading the two flags \<open>(has_no_screw, has_circuit_board)\<close>.\<close>

fun scan_boxes :: "detection list \<Rightarrow> bool \<times> bool \<Rightarrow> bool \<times> bool" where
  "scan_boxes [] flags = flags"
| "scan_boxes (b # bs) (has_no_screw, has_circuit_board) =
     (if cls b = 1 then scan_boxes bs (True, has_circuit_board)
      else if cls b = 3 then scan_boxes bs (has_no_screw, True)
      else scan_boxes bs (has_no_screw, has_circuit_board))"

definition analyze_pcb_status :: "detection_result \<Rightarrow> string" where
  "analyze_pcb_status result =
     (case result of
        NoBoxesAttr \<Rightarrow> ''unknown''
      | BoxesNone \<Rightarrow> ''unknown''
      | Boxes boxes \<Rightarrow>
          (case scan_boxes boxes (False, False) of
             (has_no_screw, has_circuit_board) \<Rightarrow>
               if has_circuit_board \<and> has_no_screw then ''abnormal'' else ''normal''))"

text \<open>
  The rule in the words of the specification: a detection of class 1 (missing fastener) and a
  detection of class 3 (board body) occur among the detections of one image.
\<close>

definition co_occur :: "detection list \<Rightarrow> bool" where
  "co_occur boxes = (list_ex (\<lambda>b. cls b = 1) boxes \<and> list_ex (\<lambda>b. cls b = 3) boxes)"

section \<open>Example inputs\<close>

text \<open>Concrete inputs on which the properties below are run.\<close>

definition scenario_object :: xml_object where
  "scenario_object =
     \<lparr>name = Some (Some name_no_screw),
      bndbox = Some \<lparr>xmin = Some (Number 10), ymin = Some (Number 10),
                     xmax = Some (Number 50), ymax = Some (Number 50)\<rparr>\<rparr>"

definition narrow_object :: xml_object where
  "narrow_object =
     \<lparr>name = Some (Some name_no_screw),
      bndbox = Some \<lparr>xmin = Some (Number 10), ymin = Some (Number 20),
                     xmax = Some (Number 17), ymax = Some (Number 60)\<rparr>\<rparr>"

definition unreadable_object :: xml_object where
  "unreadable_object =
     \<lparr>name = Some (Some name_has_screw),
      bndbox = Some \<lparr>xmin = Some Unparsable, ymin = Some (Number 10),
                     xmax = Some (Number 50), ymax = Some (Number 50)\<rparr>\<rparr>"

definition interrupted_dataset :: voc_dataset where
  "interrupted_dataset =
     \<lparr>annotations =
        [''a'' \<mapsto> Document \<lparr>img_size = Some \<lparr>width = Inr 100, height = Inr 100\<rparr>,
                             filename = Some (Some ''a.jpg''),
                             objects = [unreadable_object, scenario_object]\<rparr>],
      images = [''a.jpg'' \<mapsto> ''jpeg bytes of a'']\<rparr>"

definition huge_width :: int where
  "huge_width = 2 ^ 1024"

definition two_file_dataset :: voc_dataset where
  "two_file_dataset =
     \<lparr>annotations =
        [''a'' \<mapsto> Document \<lparr>img_size = Some \<lparr>width = Inr 100, height = Inr 100\<rparr>,
                             filename = Some (Some ''a.jpg''), objects = [scenario_object]\<rparr>,
         ''b'' \<mapsto> Document \<lparr>img_size = Some \<lparr>width = Inr 100, height = Inr 100\<rparr>,
                             filename = Some (Some ''b.jpg''), objects = []\<rparr>],
      images = [''b.jpg'' \<mapsto> ''jpeg bytes of b'']\<rparr>"

definition empty_output :: split_output where
  "empty_output = \<lparr>label_store = Map.empty, image_store = Map.empty, printed = [], processed_count = 0\<rparr>"




definition sample_label_lines :: "string list" where
  "sample_label_lines =
     [''0 0.5 0.5 0.2 0.2\<newline>'', ''1 0.5 0.5 0.2\<newline>'',
      ''1 0.1 0.1 0.1 0.1\<newline>'', ''7 0.1 0.1 0.1 0.1'']"

definition orphan_dataset :: dataset_dir where
  "orphan_dataset =
     \<lparr>images_dir = Some [''a.jpg''],
      labels_dir = Some [''a.txt'', ''orphan.txt''],
      read_lines =
        (\<lambda>f. if f = ''a.txt'' then Some [''0 0.5 0.5 0.2 0.2\<newline>'']
             else if f = ''orphan.txt'' then Some [''7 2.0 oops\<newline>'']
             else None)\<rparr>"

definition no_images_dir :: dataset_dir where
  "no_images_dir = \<lparr>images_dir = None, labels_dir = Some [], read_lines = (\<lambda>f. None)\<rparr>"

definition paired_dataset :: dataset_dir where
  "paired_dataset =
     \<lparr>images_dir = Some [''a.jpg''],
      labels_dir = Some [''a.txt''],
      read_lines = (\<lambda>f. if f = ''a.txt'' then Some [''0 0.5 0.5 0.2 0.2\<newline>''] else None)\<rparr>"

definition four_keys :: "string list" where
  "four_keys = [''a'', ''b'', ''c'', ''d'']"

definition ten_keys :: "string list" where
  "ten_keys = [''a'', ''b'', ''c'', ''d'', ''e'', ''f'', ''g'', ''h'', ''i'', ''j'']"

definition png_input :: yolo_input where
  "png_input =
     \<lparr>input_images = [''k.png'' \<mapsto> ''PNG bytes of k'', ''m.JPG'' \<mapsto> ''JPEG bytes of m''],
      input_labels = [''k.txt'' \<mapsto> ''0 0.5 0.5 0.2 0.2'']\<rparr>"

section \<open>Properties\<close>

subsection \<open>Float arithmetic\<close>

text \<open>The binary exponent is the one the definition of \<open>ilog2\<close> promises.\<close>

lemma powi_mono2: "e \<le> e' \<Longrightarrow> (2::rat) powi e \<le> 2 powi e'"
  by (rule power_int_increasing) simp_all

lemma bitlen_bounds_rat:
  assumes "0 < n"
  shows "(2::rat) powi (bitlen n - 1) \<le> of_int n" and "(of_int n :: rat) < 2 powi (bitlen n)"
proof -
  from bitlen_bounds [OF assms] have a: "2 ^ nat (bitlen n - 1) \<le> n" and b: "n < 2 ^ nat (bitlen n)"
    by simp_all
  have p: "1 \<le> bitlen n"
    using assms bitlen_eq_zero_iff [of n] bitlen_nonneg [of n] by linarith
  have "(2::rat) powi (bitlen n - 1) = of_int (2 ^ nat (bitlen n - 1))"
    using p by (simp add: power_int_def)
  also have "\<dots> \<le> of_int n"
    using a by (simp only: of_int_le_iff)
  finally show "(2::rat) powi (bitlen n - 1) \<le> of_int n" .
  have "(of_int n :: rat) < of_int (2 ^ nat (bitlen n))"
    using b by (simp only: of_int_less_iff)
  also have "\<dots> = 2 powi (bitlen n)"
    using p by (simp add: power_int_def)
  finally show "(of_int n :: rat) < 2 powi (bitlen n)" .
qed

lemma ilog2_bounds:
  assumes "0 < a"
  shows "2 powi (ilog2 a) \<le> a \<and> a < 2 powi (ilog2 a + 1)"
proof -
  obtain n d where q: "quotient_of a = (n, d)"
    by (cases "quotient_of a")
  then have d: "0 < d" and a: "a = of_int n / of_int d"
    using quotient_of_denom_pos quotient_of_div by blast+
  with assms have n: "0 < n"
    by (simp add: zero_less_divide_iff)
  let ?k = "bitlen n - bitlen d"
  note bn = bitlen_bounds_rat [OF n] and bd = bitlen_bounds_rat [OF d]
  have dpos: "(0::rat) < of_int d" using d by simp
  have up: "a < 2 powi (?k + 1)"
  proof -
    have "of_int n < (2::rat) powi (bitlen n)" by (rule bn(2))
    also have "\<dots> = 2 powi (?k + 1) * 2 powi (bitlen d - 1)"
      by (simp add: power_int_add [symmetric])
    also have "\<dots> \<le> 2 powi (?k + 1) * of_int d"
      using bd(1) by (intro mult_left_mono) simp_all
    finally show ?thesis
      using dpos by (simp add: a pos_divide_less_eq)
  qed
  have low: "2 powi (?k - 1) \<le> a"
  proof -
    have "(2::rat) powi (?k - 1) * of_int d \<le> 2 powi (?k - 1) * 2 powi (bitlen d)"
      using bd(2) by (intro mult_left_mono) simp_all
    also have "\<dots> = 2 powi (bitlen n - 1)"
      by (simp add: power_int_add [symmetric])
    also have "\<dots> \<le> of_int n" by (rule bn(1))
    finally show ?thesis
      using dpos by (simp add: a pos_le_divide_eq)
  qed
  show ?thesis
  proof (cases "2 powi ?k \<le> a")
    case True
    then have "ilog2 a = ?k" by (simp add: ilog2_def q)
    with True up show ?thesis by simp
  next
    case False
    then have "ilog2 a = ?k - 1" by (simp add: ilog2_def q)
    with False low show ?thesis by simp
  qed
qed

lemma ilog2_unique:
  assumes "0 < a" and "2 powi e \<le> a" and "a < 2 powi (e + 1)"
  shows "ilog2 a = e"
proof (rule ccontr)
  assume ne: "ilog2 a \<noteq> e"
  note b = ilog2_bounds [OF assms(1)]
  show False
  proof (cases "ilog2 a < e")
    case True
    then have "(2::rat) powi (ilog2 a + 1) \<le> 2 powi e" by (intro powi_mono2) simp
    with b assms(2) show False by linarith
  next
    case False
    with ne have "(2::rat) powi (e + 1) \<le> 2 powi (ilog2 a)" by (intro powi_mono2) simp
    with b assms(3) show False by linarith
  qed
qed

text \<open>Rounding a positive rational whose exponent is known: the form that evaluates.\<close>

lemma round64_normal:
  assumes "0 < q" and "2 powi e \<le> q" and "q < 2 powi (e + 1)" and "- 1022 \<le> e"
  shows "round64 q =
     (let v = of_int (round_half_even (q / 2 powi (e - 52))) * 2 powi (e - 52)
      in if 2 powi 1024 \<le> v then PosInf else Finite v)"
proof -
  have "ilog2 \<bar>q\<bar> = e"
    using assms by (intro ilog2_unique) simp_all
  then show ?thesis
    using assms(1,4) by (simp add: round64_def Let_def max_def)
qed

lemma floor_rat_numeral_div: "\<lfloor>(numeral a :: rat) / numeral b\<rfloor> = numeral a div numeral b"
  using floor_divide_of_int_eq [of "numeral a" "numeral b", where ?'a = rat] by simp

lemmas fl_eval = round_half_even_def Let_def floor_rat_numeral_div

lemma round64_not_nan: "round64 q \<noteq> NaN"
  by (simp add: round64_def Let_def)

lemma round_half_even_lower: "of_int n \<le> q \<Longrightarrow> n \<le> round_half_even q"
proof -
  assume "of_int n \<le> q"
  then have "n \<le> \<lfloor>q\<rfloor>" by (simp add: le_floor_iff)
  then show ?thesis by (simp add: round_half_even_def Let_def)
qed

text \<open>A positive rational at or above \<open>2^(-1022)\<close> does not round to zero.\<close>

lemma round64_pos:
  assumes "0 < q" and "2 powi (- 1022) \<le> q" and "round64 q = Finite v"
  shows "0 < v"
proof -
  let ?e = "ilog2 q"
  note b = ilog2_bounds [OF assms(1)]
  have e: "- 1022 \<le> ?e"
  proof (rule ccontr)
    assume "\<not> - 1022 \<le> ?e"
    then have "(2::rat) powi (?e + 1) \<le> 2 powi (- 1022)" by (intro powi_mono2) simp
    with b assms(2) show False by linarith
  qed
  let ?s = "(2::rat) powi (?e - 52)"
  have s: "0 < ?s" by simp
  have "?s \<le> 2 powi ?e" by (intro powi_mono2) simp
  with b have "?s \<le> q" by linarith
  with s have "of_int 1 \<le> q / ?s" by (simp add: pos_le_divide_eq)
  then have r: "1 \<le> round_half_even (q / ?s)" by (rule round_half_even_lower)
  have "round64 q =
     (let v = of_int (round_half_even (q / ?s)) * ?s in if 2 powi 1024 \<le> v then PosInf else Finite v)"
    using assms(1) b e by (intro round64_normal) simp_all
  with assms(3) have "v = of_int (round_half_even (q / ?s)) * ?s"
    by (simp add: Let_def split: if_splits)
  with r s show ?thesis by simp
qed

lemma nearest_float_pos:
  assumes "1 \<le> k" and "int_to_float k = Inr fk"
  shows "\<exists>f. nearest_float k = Finite f \<and> fk = Finite f \<and> 0 < f"
proof (cases "nearest_float k")
  case (Finite f)
  with assms(2) have fk: "fk = Finite f"
    by (simp add: int_to_float_def)
  have "(2::rat) powi (- 1022) \<le> 2 powi 0"
    by (rule powi_mono2) simp
  also have "\<dots> = 1" by simp
  also have "\<dots> \<le> of_int k" using assms(1) by simp
  finally have low: "(2::rat) powi (- 1022) \<le> of_int k" .
  have pos: "(0::rat) < of_int k" using assms(1) by simp
  from Finite have "round64 (of_int k) = Finite f"
    by (simp only: nearest_float_def)
  with pos low have "0 < f"
    by (rule round64_pos)
  with Finite fk show ?thesis by simp
next
  case PosInf
  with assms(2) show ?thesis by (simp add: int_to_float_def)
next
  case NegInf
  with assms(2) show ?thesis by (simp add: int_to_float_def)
next
  case NaN
  with assms(2) show ?thesis by (simp add: int_to_float_def)
qed

text \<open>The clamp of the converter is the clamp of the specification on every float but \<open>nan\<close>,
  and its value lies in the unit interval.\<close>

lemma clamp_max_min: "v \<noteq> NaN \<Longrightarrow> py_max (Finite 0) (py_min (Finite 1) v) = clamp01 v"
  by (cases v) (auto simp add: py_max_def py_min_def clamp01_def)

lemma clamp01_range: "v \<noteq> NaN \<Longrightarrow> \<exists>q. clamp01 v = Finite q \<and> 0 \<le> q \<and> q \<le> 1"
  by (cases v) (auto simp add: clamp01_def)

lemma fl_quot_not_nan: "x \<noteq> NaN \<Longrightarrow> b \<noteq> 0 \<Longrightarrow> fl_quot x (Finite b) \<noteq> NaN"
  by (cases x) (auto simp add: round64_not_nan)

subsection \<open>Evaluating the decimal formats\<close>

lemma show_nat_numeral:
  "show_nat (numeral k) =
     (if (numeral k :: nat) < 10 then [''0123456789'' ! (numeral k)]
      else show_nat (numeral k div 10) @ [''0123456789'' ! (numeral k mod 10)])"
  by (subst show_nat.simps) simp

lemma show_nat_0: "show_nat 0 = ''0''"
  by (simp add: show_nat.simps)

lemma show_nat_1: "show_nat (Suc 0) = ''1''"
  by (simp add: show_nat.simps)

text \<open>The floats of the examples.\<close>

lemma round64_10: "round64 10 = Finite (10)"
  by (subst round64_normal [where e = "3"]) (simp_all add: fl_eval)

lemma round64_17: "round64 17 = Finite (17)"
  by (subst round64_normal [where e = "4"]) (simp_all add: fl_eval)

lemma round64_20: "round64 20 = Finite (20)"
  by (subst round64_normal [where e = "4"]) (simp_all add: fl_eval)

lemma round64_50: "round64 50 = Finite (50)"
  by (subst round64_normal [where e = "5"]) (simp_all add: fl_eval)

lemma round64_60: "round64 60 = Finite (60)"
  by (subst round64_normal [where e = "5"]) (simp_all add: fl_eval)

lemma round64_27: "round64 27 = Finite (27)"
  by (subst round64_normal [where e = "4"]) (simp_all add: fl_eval)

lemma round64_80: "round64 80 = Finite (80)"
  by (subst round64_normal [where e = "6"]) (simp_all add: fl_eval)

lemma round64_30: "round64 30 = Finite (30)"
  by (subst round64_normal [where e = "4"]) (simp_all add: fl_eval)

lemma round64_40: "round64 40 = Finite (40)"
  by (subst round64_normal [where e = "5"]) (simp_all add: fl_eval)

lemma round64_7: "round64 7 = Finite (7)"
  by (subst round64_normal [where e = "2"]) (simp_all add: fl_eval)

lemma round64_100: "round64 100 = Finite (100)"
  by (subst round64_normal [where e = "6"]) (simp_all add: fl_eval)

lemma round64_640: "round64 640 = Finite (640)"
  by (subst round64_normal [where e = "9"]) (simp_all add: fl_eval)

lemma round64_480: "round64 480 = Finite (480)"
  by (subst round64_normal [where e = "8"]) (simp_all add: fl_eval)

lemma round64_27_2: "round64 (27 / 2) = Finite (27 / 2)"
  by (subst round64_normal [where e = "3"]) (simp_all add: fl_eval)

lemma round64_3_10: "round64 (3 / 10) = Finite (5404319552844595 / 18014398509481984)"
  by (subst round64_normal [where e = "-2"]) (simp_all add: fl_eval)

lemma round64_2_5: "round64 (2 / 5) = Finite (3602879701896397 / 9007199254740992)"
  by (subst round64_normal [where e = "-2"]) (simp_all add: fl_eval)

lemma round64_27_1280: "round64 (27 / 1280) = Finite (3039929748475085 / 144115188075855872)"
  by (subst round64_normal [where e = "-6"]) (simp_all add: fl_eval)

lemma round64_1_12: "round64 (1 / 12) = Finite (6004799503160661 / 72057594037927936)"
  by (subst round64_normal [where e = "-4"]) (simp_all add: fl_eval)

lemma round64_7_640: "round64 (7 / 640) = Finite (3152519739159347 / 288230376151711744)"
  by (subst round64_normal [where e = "-7"]) (simp_all add: fl_eval)

lemmas round64_values = round64_10 round64_17 round64_20 round64_50 round64_60 round64_27 round64_80 round64_30 round64_40 round64_7 round64_100 round64_640 round64_480 round64_27_2 round64_3_10 round64_2_5 round64_27_1280 round64_1_12 round64_7_640

lemmas fmt_eval = spec_line_def norm_center_def norm_size_def format_6f.simps round_half_even_def
  pad6_def show_nat_numeral show_nat_0 show_nat_1 show_int_def clamp01_def Let_def
  floor_rat_numeral_div fl_sub_def nearest_float_def round64_values

lemma digit_nth: "n < 10 \<Longrightarrow> is_digit (''0123456789'' ! n)"
  unfolding is_digit_def by (rule nth_mem) simp

lemma show_nat_digits: "list_all is_digit (show_nat n)"
proof (induction n rule: show_nat.induct)
  case (1 n)
  show ?case
  proof (cases "n < 10")
    case True
    then show ?thesis
      by (subst show_nat.simps) (simp add: digit_nth)
  next
    case False
    then have "list_all is_digit (show_nat (n div 10))"
      by (rule "1.IH")
    moreover have "is_digit (''0123456789'' ! (n mod 10))"
      by (rule digit_nth) simp
    ultimately show ?thesis
      using False by (subst show_nat.simps) simp
  qed
qed

lemma length_show_nat: "n < 10 ^ k \<Longrightarrow> 0 < k \<Longrightarrow> length (show_nat n) \<le> k"
proof (induction n arbitrary: k rule: show_nat.induct)
  case (1 n)
  show ?case
  proof (cases "n < 10")
    case True
    with "1.prems" show ?thesis
      by (subst show_nat.simps) simp
  next
    case False
    with "1.prems" obtain j where k: "k = Suc j"
      by (cases k) auto
    with False "1.prems" have "0 < j"
      by (cases j) auto
    moreover from k "1.prems" have "n div 10 < 10 ^ j"
      by (simp add: less_mult_imp_div_less mult.commute)
    ultimately have "length (show_nat (n div 10)) \<le> j"
      using "1.IH" [OF False] by blast
    with False k show ?thesis
      by (subst show_nat.simps) simp
  qed
qed

lemma length_pad6: "length s \<le> 6 \<Longrightarrow> length (pad6 s) = 6"
  by (simp add: pad6_def)

lemma digits_pad6:
  assumes "list_all is_digit s"
  shows "list_all is_digit (pad6 s)"
proof -
  have "list_all is_digit ''000000''"
    by (simp add: is_digit_def)
  then have "list_all is_digit (drop (length s) ''000000'')"
    unfolding list_all_iff by (meson in_set_dropD)
  with assms show ?thesis
    unfolding pad6_def by simp
qed

lemma round_half_even_range:
  assumes "0 \<le> q" and "q \<le> of_int m"
  shows "0 \<le> round_half_even q \<and> round_half_even q \<le> m"
proof -
  have lo: "0 \<le> \<lfloor>q\<rfloor>"
    using assms(1) by simp
  have hi: "\<lfloor>q\<rfloor> \<le> m"
    using assms(2) by (simp add: floor_le_iff)
  have up: "\<lfloor>q\<rfloor> + 1 \<le> m" if "of_int \<lfloor>q\<rfloor> < q"
  proof -
    from that assms(2) have "of_int \<lfloor>q\<rfloor> < (of_int m :: rat)"
      by simp
    then show ?thesis by simp
  qed
  show ?thesis
    using lo hi up by (auto simp add: round_half_even_def Let_def)
qed

lemma format_6f_unit:
  assumes "0 \<le> v" and "v \<le> 1"
  shows "six_decimals (format_6f (Finite v))"
proof -
  let ?n = "nat (round_half_even (\<bar>v\<bar> * 1000000))"
  have "0 \<le> \<bar>v\<bar> * 1000000" and "\<bar>v\<bar> * 1000000 \<le> of_int 1000000"
    using assms by simp_all
  then have r: "0 \<le> round_half_even (\<bar>v\<bar> * 1000000) \<and> round_half_even (\<bar>v\<bar> * 1000000) \<le> 1000000"
    by (rule round_half_even_range)
  then have n: "?n \<le> 1000000"
    by linarith
  have f: "format_6f (Finite v) = show_nat (?n div 1000000) @ ''.'' @ pad6 (show_nat (?n mod 1000000))"
    using assms(1) by (simp add: Let_def)
  have "?n mod 1000000 < 10 ^ 6"
    by simp
  then have "length (show_nat (?n mod 1000000)) \<le> 6"
    by (rule length_show_nat) simp
  then have l: "length (pad6 (show_nat (?n mod 1000000))) = 6"
    by (rule length_pad6)
  have d: "list_all is_digit (pad6 (show_nat (?n mod 1000000)))"
    by (rule digits_pad6) (rule show_nat_digits)
  have "?n div 1000000 = 0 \<or> ?n div 1000000 = 1"
    using n by (cases "?n = 1000000") auto
  then have h: "show_nat (?n div 1000000) = ''0'' \<or> show_nat (?n div 1000000) = ''1''"
    by (auto simp add: show_nat_0 show_nat_1)
  show ?thesis
    unfolding f six_decimals_def using h l d by auto
qed

lemma six_decimals_clamp01:
  assumes "v \<noteq> NaN"
  shows "six_decimals (format_6f (clamp01 v))"
proof -
  from clamp01_range [OF assms] obtain q where q: "clamp01 v = Finite q" and "0 \<le> q" and "q \<le> 1"
    by blast
  then have "six_decimals (format_6f (Finite q))"
    by (intro format_6f_unit)
  then show ?thesis
    by (simp only: q)
qed

subsection \<open>The converter writes the normalised line\<close>

text \<open>With a width that converts to a float and is not zero, the two quotients of an axis are
  what the converter divides, and neither is \<open>nan\<close>.\<close>

lemma fl_div_int_quot:
  assumes "int_to_float k = Inr (Finite f)" and "f \<noteq> 0"
  shows "fl_div_int x k = Inr (fl_quot x (Finite f))"
  using assms by (simp add: fl_div_int_def fl_div_def)

lemma center_not_nan:
  "f \<noteq> 0 \<Longrightarrow> fl_quot (fl_quot (fl_add (Finite lo) (Finite hi)) (Finite 2)) (Finite f) \<noteq> NaN"
  by (intro fl_quot_not_nan) (simp_all add: round64_not_nan)

lemma size_not_nan:
  "f \<noteq> 0 \<Longrightarrow> fl_quot (fl_sub (Finite hi) (Finite lo)) (Finite f) \<noteq> NaN"
  by (intro fl_quot_not_nan) (simp_all add: fl_sub_def round64_not_nan)

lemma six_decimals_center:
  assumes "1 \<le> k" and "int_to_float k = Inr fk"
  shows "six_decimals (format_6f (norm_center lo hi k))"
proof -
  from nearest_float_pos [OF assms] obtain f where f: "nearest_float k = Finite f" and "f \<noteq> 0"
    by auto
  then have "six_decimals (format_6f (clamp01
      (fl_quot (fl_quot (fl_add (Finite lo) (Finite hi)) (Finite 2)) (Finite f))))"
    by (intro six_decimals_clamp01 center_not_nan)
  then show ?thesis
    by (simp only: norm_center_def f)
qed

lemma six_decimals_size:
  assumes "1 \<le> k" and "int_to_float k = Inr fk"
  shows "six_decimals (format_6f (norm_size lo hi k))"
proof -
  from nearest_float_pos [OF assms] obtain f where f: "nearest_float k = Finite f" and "f \<noteq> 0"
    by auto
  then have "six_decimals (format_6f (clamp01 (fl_quot (fl_sub (Finite hi) (Finite lo)) (Finite f))))"
    by (intro six_decimals_clamp01 size_not_nan)
  then show ?thesis
    by (simp only: norm_size_def f)
qed

lemma write_object_line:
  assumes "name obj = Some cls_name" and "class_id_of cls_name = Some c"
    and "bndbox obj = Some bb"
    and "float_of_child (xmin bb) = Inr (Finite x0)" and "float_of_child (ymin bb) = Inr (Finite y0)"
    and "float_of_child (xmax bb) = Inr (Finite x1)" and "float_of_child (ymax bb) = Inr (Finite y1)"
    and "1 \<le> w" and "1 \<le> h"
    and "int_to_float w = Inr fw" and "int_to_float h = Inr fh"
  shows "write_object w h obj = Written (spec_line c x0 y0 x1 y1 w h)"
proof -
  from nearest_float_pos [OF assms(8) assms(10)] obtain f
    where w: "nearest_float w = Finite f" "int_to_float w = Inr (Finite f)" "f \<noteq> 0"
    using assms(10) by auto
  from nearest_float_pos [OF assms(9) assms(11)] obtain g
    where h: "nearest_float h = Finite g" "int_to_float h = Inr (Finite g)" "g \<noteq> 0"
    using assms(11) by auto
  note dw = fl_div_int_quot [OF w(2) w(3)] and dh = fl_div_int_quot [OF h(2) h(3)]
  have clamp: "py_max (Finite 0) (py_min (Finite 1) (fl_quot x (Finite d))) = clamp01 (fl_quot x (Finite d))"
    if "x \<noteq> NaN" and "d \<noteq> 0" for x d
    using that by (intro clamp_max_min fl_quot_not_nan)
  have half: "fl_quot (round64 q) (Finite 2) \<noteq> NaN" for q
    by (intro fl_quot_not_nan round64_not_nan) simp
  show ?thesis
    unfolding write_object_def spec_line_def norm_center_def norm_size_def
    by (simp add: assms(1-7) dw dh clamp half round64_not_nan w(1,3) h(1,3) fl_sub_def Let_def
          del: fl_quot.simps)
qed

lemma class_id_no_screw: "class_id_of (Some name_no_screw) = Some 1"
  by (simp add: class_id_of_def CLASS_MAPPING_def name_marker_def name_no_screw_def)

lemma int_to_float_100: "int_to_float 100 = Inr (Finite 100)"
  by (simp add: int_to_float_def nearest_float_def round64_100)

lemma int_to_float_640: "int_to_float 640 = Inr (Finite 640)"
  by (simp add: int_to_float_def nearest_float_def round64_640)

lemma int_to_float_480: "int_to_float 480 = Inr (Finite 480)"
  by (simp add: int_to_float_def nearest_float_def round64_480)

lemma scenario_line: "spec_line 1 10 10 50 50 100 100 = ''1 0.300000 0.300000 0.400000 0.400000''"
  by (simp add: fmt_eval)

lemma narrow_line: "spec_line 1 10 20 17 60 640 480 = ''1 0.021094 0.083333 0.010937 0.083333''"
  by (simp add: fmt_eval)

lemma scenario_written:
  "write_object 100 100 scenario_object = Written ''1 0.300000 0.300000 0.400000 0.400000''"
proof -
  have "write_object 100 100 scenario_object = Written (spec_line 1 10 10 50 50 100 100)"
    by (rule write_object_line [where cls_name = "Some name_no_screw" and fw = "Finite 100"
          and fh = "Finite 100" and bb = "\<lparr>xmin = Some (Number 10), ymin = Some (Number 10),
            xmax = Some (Number 50), ymax = Some (Number 50)\<rparr>"])
      (simp_all add: scenario_object_def class_id_no_screw round64_values int_to_float_100)
  then show ?thesis by (simp only: scenario_line)
qed

lemma scenario_lines:
  "write_objects 100 100 [scenario_object] = ([''1 0.300000 0.300000 0.400000 0.400000''], None)"
  by (simp add: scenario_written)

text \<open>The loop up to a record that writes a line, and the label file of the annotation.\<close>

lemma write_objects_append:
  "write_objects w h pre = (ls, None) \<Longrightarrow>
     write_objects w h (pre @ objs) = (ls @ fst (write_objects w h objs), snd (write_objects w h objs))"
proof (induction pre arbitrary: ls)
  case Nil
  then show ?case by simp
next
  case (Cons o1 pre)
  show ?case
  proof (cases "write_object w h o1")
    case (Written l1)
    obtain ls' r where rest: "write_objects w h pre = (ls', r)"
      by (cases "write_objects w h pre")
    with Written Cons.prems have ls: "ls = l1 # ls'" and r: "r = None"
      by simp_all
    from Cons.IH [OF rest [unfolded r]] Written ls show ?thesis
      by simp
  next
    case Skipped
    with Cons.prems have "write_objects w h pre = (ls, None)"
      by simp
    from Cons.IH [OF this] Skipped show ?thesis
      by simp
  next
    case (Raised e)
    with Cons.prems show ?thesis by simp
  qed
qed

lemma label_of_process_file:
  assumes "annotations voc file_base = Some (Document doc)" and "img_size doc = Some sz"
    and "width sz = Inr w" and "height sz = Inr h" and "filename doc = Some (Some image_name)"
  shows "label_store (process_file voc out file_base) (file_base @ ''.txt'')
           = Some (fst (write_objects w h (objects doc)))"
  using assms
  by (simp add: process_file_def failed_with_def Let_def split: prod.split option.split)

lemma huge_width_overflow: "int_to_float huge_width = Inl OverflowError"
proof -
  have "round64 (of_int huge_width) = PosInf"
    unfolding huge_width_def
    by (subst round64_normal [where e = "1024"]) (simp_all add: fl_eval)
  then show ?thesis
    by (simp add: int_to_float_def nearest_float_def)
qed

lemma class_id_has_screw: "class_id_of (Some name_has_screw) = Some 2"
  by (simp add: class_id_of_def CLASS_MAPPING_def name_marker_def name_no_screw_def
        name_has_screw_def)

lemma unreadable_raises: "write_object 100 100 unreadable_object = Raised ValueError"
  by (simp add: write_object_def unreadable_object_def class_id_has_screw)

text \<open>
  Claim C1, as stated, fails. The record of the scenario (class "no screw", box
  \<open>(10, 10, 50, 50)\<close>, image of 100 by 100) gets no line when it follows, in its annotation
  file, a record with a coordinate that is no number: the ValueError of that record ends the
  loop, and the label file of the annotation stays empty. On an image whose width is
  \<open>2^1024\<close> the record of the scenario raises an OverflowError, since the width has no float.
\<close>

theorem C1_counterexample:
  "write_objects 100 100 [unreadable_object, scenario_object] = ([], Some ValueError)
   \<and> label_store (process_file interrupted_dataset empty_output ''a'') ''a.txt'' = Some []
   \<and> write_object huge_width 100 scenario_object = Raised OverflowError"
proof -
  have a: "write_objects 100 100 [unreadable_object, scenario_object] = ([], Some ValueError)"
    by (simp add: unreadable_raises)
  have "label_store (process_file interrupted_dataset empty_output ''a'') (''a'' @ ''.txt'')
      = Some (fst (write_objects 100 100 [unreadable_object, scenario_object]))"
    using label_of_process_file [where voc = interrupted_dataset and file_base = "''a''"
          and out = empty_output and image_name = "''a.jpg''" and w = 100 and h = 100
          and sz = "\<lparr>width = Inr 100, height = Inr 100\<rparr>"
          and doc = "\<lparr>img_size = Some \<lparr>width = Inr 100, height = Inr 100\<rparr>,
                 filename = Some (Some ''a.jpg''),
                 objects = [unreadable_object, scenario_object]\<rparr>"]
    by (simp add: interrupted_dataset_def)
  then have b: "label_store (process_file interrupted_dataset empty_output ''a'') ''a.txt'' = Some []"
    by (simp add: unreadable_raises)
  have c: "write_object huge_width 100 scenario_object = Raised OverflowError"
    by (simp add: write_object_def scenario_object_def class_id_no_screw round64_values
          fl_div_int_def huge_width_overflow)
  from a b c show ?thesis by simp
qed

text \<open>
  Claim C1, amended: for a record whose class name the table maps to \<open>c\<close>, with a box of four
  finite floats \<open>(x0, y0, x1, y1)\<close>, on an image of width \<open>w \<ge> 1\<close> and height \<open>h \<ge> 1\<close>
  that both convert to a float, the pass of the converter's loop for the record writes exactly
  one line, the line of the specification: the class id and the four quotients, computed in
  float arithmetic, each clamped to the unit interval after the division and printed with six
  decimals (a digit 0 or 1, the point, six digits). The loop then goes on with the remaining
  records. When no record before it in the file raises an exception, the loop reaches the
  record and the line follows the lines of the records before it, in the loop and in the
  label file that \<open>process_file\<close> writes for the annotation.
\<close>

theorem C1_converter_line:
  assumes "name obj = Some cls_name" and "class_id_of cls_name = Some c"
    and "bndbox obj = Some bb"
    and "float_of_child (xmin bb) = Inr (Finite x0)" and "float_of_child (ymin bb) = Inr (Finite y0)"
    and "float_of_child (xmax bb) = Inr (Finite x1)" and "float_of_child (ymax bb) = Inr (Finite y1)"
    and "1 \<le> w" and "1 \<le> h"
    and "int_to_float w = Inr fw" and "int_to_float h = Inr fh"
  shows "write_object w h obj = Written (spec_line c x0 y0 x1 y1 w h)
     \<and> write_objects w h (obj # objs) =
         (spec_line c x0 y0 x1 y1 w h # fst (write_objects w h objs), snd (write_objects w h objs))
     \<and> (write_objects w h pre = (ls, None) \<longrightarrow>
          write_objects w h (pre @ obj # objs) =
            (ls @ spec_line c x0 y0 x1 y1 w h # fst (write_objects w h objs),
             snd (write_objects w h objs)))
     \<and> (write_objects w h pre = (ls, None) \<and> annotations voc file_base = Some (Document doc)
          \<and> img_size doc = Some sz \<and> width sz = Inr w \<and> height sz = Inr h
          \<and> filename doc = Some (Some image_name) \<and> objects doc = pre @ obj # objs \<longrightarrow>
          label_store (process_file voc out file_base) (file_base @ ''.txt'') =
            Some (ls @ spec_line c x0 y0 x1 y1 w h # fst (write_objects w h objs)))
     \<and> six_decimals (format_6f (norm_center x0 x1 w))
     \<and> six_decimals (format_6f (norm_center y0 y1 h))
     \<and> six_decimals (format_6f (norm_size x0 x1 w))
     \<and> six_decimals (format_6f (norm_size y0 y1 h))"
proof -
  let ?line = "spec_line c x0 y0 x1 y1 w h"
  have line: "write_object w h obj = Written ?line"
    using assms by (rule write_object_line)
  then have step: "write_objects w h (obj # objs) =
      (?line # fst (write_objects w h objs), snd (write_objects w h objs))"
    by (simp split: prod.split)
  have reached: "write_objects w h (pre @ obj # objs) =
      (ls @ ?line # fst (write_objects w h objs), snd (write_objects w h objs))"
    if "write_objects w h pre = (ls, None)"
    using write_objects_append [OF that, of "obj # objs"] by (simp only: step fst_conv snd_conv)
  have stored: "label_store (process_file voc out file_base) (file_base @ ''.txt'') =
      Some (ls @ ?line # fst (write_objects w h objs))"
    if "write_objects w h pre = (ls, None)" and "annotations voc file_base = Some (Document doc)"
      and "img_size doc = Some sz" and "width sz = Inr w" and "height sz = Inr h"
      and "filename doc = Some (Some image_name)" and "objects doc = pre @ obj # objs"
    using label_of_process_file [OF that(2-6), of out] reached [OF that(1)]
    by (simp only: that(7) fst_conv)
  note six = six_decimals_center [OF assms(8) assms(10)] six_decimals_center [OF assms(9) assms(11)]
    six_decimals_size [OF assms(8) assms(10)] six_decimals_size [OF assms(9) assms(11)]
  from line step reached stored six show ?thesis
    by blast
qed

text \<open>
  The scenario of the specification, class "no screw" (id 1) with the box \<open>(10, 10, 50, 50)\<close>
  on an image of 100 by 100, alone in its annotation; and a box \<open>(10, 20, 17, 60)\<close> on an
  image of 640 by 480, twice in one file, whose width \<open>7 / 640\<close> is rounded as a float before
  it is printed.
\<close>

theorem C1_converter_line_witness:
  "write_object 100 100 scenario_object = Written ''1 0.300000 0.300000 0.400000 0.400000''
   \<and> label_store (process_file two_file_dataset empty_output ''a'') ''a.txt''
       = Some [''1 0.300000 0.300000 0.400000 0.400000'']
   \<and> write_object 640 480 narrow_object = Written ''1 0.021094 0.083333 0.010937 0.083333''
   \<and> write_objects 640 480 [narrow_object, narrow_object]
       = ([''1 0.021094 0.083333 0.010937 0.083333'', ''1 0.021094 0.083333 0.010937 0.083333''], None)"
proof -
  let ?sbox = "\<lparr>xmin = Some (Number 10), ymin = Some (Number 10),
                  xmax = Some (Number 50), ymax = Some (Number 50)\<rparr>"
  let ?nbox = "\<lparr>xmin = Some (Number 10), ymin = Some (Number 20),
                  xmax = Some (Number 17), ymax = Some (Number 60)\<rparr>"
  let ?doc = "\<lparr>img_size = Some \<lparr>width = Inr 100, height = Inr 100\<rparr>,
               filename = Some (Some ''a.jpg''), objects = [scenario_object]\<rparr>"
  have s1: "name scenario_object = Some (Some name_no_screw)"
    and s3: "bndbox scenario_object = Some ?sbox"
    by (simp_all add: scenario_object_def)
  have s4: "float_of_child (xmin ?sbox) = Inr (Finite 10)"
    and s5: "float_of_child (ymin ?sbox) = Inr (Finite 10)"
    and s6: "float_of_child (xmax ?sbox) = Inr (Finite 50)"
    and s7: "float_of_child (ymax ?sbox) = Inr (Finite 50)"
    by (simp_all add: round64_values)
  have n1: "name narrow_object = Some (Some name_no_screw)"
    and n3: "bndbox narrow_object = Some ?nbox"
    by (simp_all add: narrow_object_def)
  have n4: "float_of_child (xmin ?nbox) = Inr (Finite 10)"
    and n5: "float_of_child (ymin ?nbox) = Inr (Finite 20)"
    and n6: "float_of_child (xmax ?nbox) = Inr (Finite 17)"
    and n7: "float_of_child (ymax ?nbox) = Inr (Finite 60)"
    by (simp_all add: round64_values)
  have one: "(1::int) \<le> 100" "(1::int) \<le> 640" "(1::int) \<le> 480"
    by simp_all
  note s = C1_converter_line [where objs = "[]" and pre = "[]" and ls = "[]"
      and voc = two_file_dataset and file_base = "''a''" and doc = ?doc
      and sz = "\<lparr>width = Inr 100, height = Inr 100\<rparr>" and image_name = "''a.jpg''"
      and out = empty_output,
      OF s1 class_id_no_screw s3 s4 s5 s6 s7 one(1) one(1) int_to_float_100 int_to_float_100]
  note n = C1_converter_line [where objs = "[]" and pre = "[narrow_object]"
      and ls = "[''1 0.021094 0.083333 0.010937 0.083333'']",
      OF n1 class_id_no_screw n3 n4 n5 n6 n7 one(2) one(3) int_to_float_640 int_to_float_480]
  have a: "write_object 100 100 scenario_object = Written ''1 0.300000 0.300000 0.400000 0.400000''"
    using s by (simp only: scenario_line)
  have b: "label_store (process_file two_file_dataset empty_output ''a'') ''a.txt''
       = Some [''1 0.300000 0.300000 0.400000 0.400000'']"
    using s by (simp add: scenario_line two_file_dataset_def)
  have c: "write_object 640 480 narrow_object = Written ''1 0.021094 0.083333 0.010937 0.083333''"
    using n by (simp only: narrow_line)
  then have "write_objects 640 480 [narrow_object]
      = ([''1 0.021094 0.083333 0.010937 0.083333''], None)"
    by simp
  with n have d: "write_objects 640 480 [narrow_object, narrow_object]
       = ([''1 0.021094 0.083333 0.010937 0.083333'', ''1 0.021094 0.083333 0.010937 0.083333''], None)"
    by (simp add: narrow_line)
  from a b c d show ?thesis by simp
qed

subsection \<open>A missing image does not stop the conversion\<close>

text \<open>
  Claim C8: for a file base name whose annotation parses (the document has its size, its file
  name, and no object raises) while the image named in it does not exist, the converter writes
  the label file with the lines of the annotation, copies no image, does not count the file
  as processed, prints the warning about the missing image, and goes on with the remaining
  file base names from that state.
\<close>

theorem C8_missing_image:
  assumes "annotations voc file_base = Some (Document doc)"
    and "img_size doc = Some sz" and "width sz = Inr w" and "height sz = Inr h"
    and "filename doc = Some (Some image_name)"
    and "write_objects w h (objects doc) = (ls, None)"
    and "images voc image_name = None"
  shows "process_split voc out (file_base # file_list) =
           process_split voc
             (out\<lparr>label_store := (label_store out)(file_base @ ''.txt'' \<mapsto> ls),
                  printed := printed out @ [ImageMissing image_name]\<rparr>) file_list
     \<and> label_store (process_file voc out file_base) (file_base @ ''.txt'') = Some ls
     \<and> image_store (process_file voc out file_base) = image_store out
     \<and> processed_count (process_file voc out file_base) = processed_count out
     \<and> printed (process_file voc out file_base) = printed out @ [ImageMissing image_name]"
proof -
  have "process_file voc out file_base =
          out\<lparr>label_store := (label_store out)(file_base @ ''.txt'' \<mapsto> ls),
              printed := printed out @ [ImageMissing image_name]\<rparr>"
    using assms by (simp add: process_file_def)
  then show ?thesis by simp
qed

theorem C8_missing_image_witness:
  "label_store (process_split two_file_dataset empty_output [''a'', ''b'']) ''a.txt''
       = Some [''1 0.300000 0.300000 0.400000 0.400000'']
   \<and> image_store (process_split two_file_dataset empty_output [''a'', ''b'']) ''a.jpg'' = None
   \<and> printed (process_split two_file_dataset empty_output [''a'', ''b'']) = [ImageMissing ''a.jpg'']
   \<and> label_store (process_split two_file_dataset empty_output [''a'', ''b'']) ''b.txt'' = Some []
   \<and> image_store (process_split two_file_dataset empty_output [''a'', ''b'']) ''b.jpg''
       = Some ''jpeg bytes of b''
   \<and> processed_count (process_split two_file_dataset empty_output [''a'', ''b'']) = 1"
proof -
  let ?doc = "\<lparr>img_size = Some \<lparr>width = Inr 100, height = Inr 100\<rparr>,
          filename = Some (Some ''a.jpg''), objects = [scenario_object]\<rparr>"
  have h1: "annotations two_file_dataset ''a'' = Some (Document ?doc)"
    by (simp add: two_file_dataset_def)
  have h2: "img_size ?doc = Some \<lparr>width = Inr 100, height = Inr 100\<rparr>"
    and h3: "width \<lparr>width = Inr 100, height = Inr 100\<rparr> = Inr 100"
    and h4: "height \<lparr>width = Inr 100, height = Inr 100\<rparr> = Inr 100"
    and h5: "filename ?doc = Some (Some ''a.jpg'')"
    by simp_all
  have h6: "write_objects 100 100 (objects ?doc) = ([''1 0.300000 0.300000 0.400000 0.400000''], None)"
    using scenario_lines by simp
  have h7: "images two_file_dataset ''a.jpg'' = None"
    by (simp add: two_file_dataset_def)
  note step = C8_missing_image [OF h1 h2 h3 h4 h5 h6 h7, of empty_output "[''b'']"]
  have b: "process_file two_file_dataset out ''b'' =
      out\<lparr>label_store := (label_store out)(''b.txt'' \<mapsto> []),
          image_store := (image_store out)(''b.jpg'' \<mapsto> ''jpeg bytes of b''),
          processed_count := processed_count out + 1\<rparr>" for out
    by (simp add: process_file_def two_file_dataset_def basename_def)
  show ?thesis
    using step by (simp add: b empty_output_def)
qed

subsection \<open>Boxes with inverted corners\<close>


lemma remove_invalid_drop:
  "inspect_object w h obj = Inr True \<Longrightarrow> remove_invalid w h (obj # objs) = remove_invalid w h objs"
  by (simp split: sum.split)

lemma parses_float: "parses t \<Longrightarrow> \<exists>v. float_of_child t = Inr v"
  by (simp add: parses_def split: sum.splits)














subsection \<open>Line validation of the checker\<close>

lemma class_ids: "fst ` set CLASS_MAPPING = {0, 1, 2, 3}"
  by (auto simp add: CLASS_MAPPING_def)

lemma len5: "length xs = 5 \<longleftrightarrow> (\<exists>a b c d e. xs = [a, b, c, d, e])"
  by (auto simp add: length_Suc_conv eval_nat_numeral)

lemma check_line_well_formed:
  "check_line conv line \<noteq> Flagged \<longleftrightarrow> well_formed_line conv line"
proof (cases "length (py_split (py_strip line)) = 5")
  case True
  then obtain a b c d e where p: "py_split (py_strip line) = [a, b, c, d, e]"
    by (auto simp add: len5)
  show ?thesis
    by (simp add: check_line_def well_formed_line_def p class_ids split: option.split)
next
  case False
  then have "well_formed_line conv line = False"
    by (auto simp add: well_formed_line_def split: list.split)
  with False show ?thesis
    by (simp add: check_line_def)
qed

lemma check_line_class:
  "(\<exists>bw bh. check_line conv line = Counted c bw bh) \<longleftrightarrow> line_class conv line = Some c"
proof (cases "length (py_split (py_strip line)) = 5")
  case True
  then obtain t0 t1 t2 t3 t4 where p: "py_split (py_strip line) = [t0, t1, t2, t3, t4]"
    by (auto simp add: len5)
  show ?thesis
    by (auto simp add: check_line_def well_formed_line_def line_class_def p class_ids
        split: option.split)
next
  case False
  then have "well_formed_line conv line = False"
    by (auto simp add: well_formed_line_def split: list.split)
  with False show ?thesis
    by (simp add: check_line_def line_class_def)
qed

lemma check_line_flagged:
  "check_line conv line = Flagged \<longleftrightarrow> \<not> well_formed_line conv line"
  using check_line_well_formed [of conv line] by blast

lemma error_files_check_lines:
  "error_files (check_lines conv f lines a) =
     error_files a @ replicate (length (filter (\<lambda>l. \<not> well_formed_line conv l) lines)) f"
proof (induction lines arbitrary: a)
  case Nil
  then show ?case by simp
next
  case (Cons l lines)
  show ?case
  proof (cases "check_line conv l")
    case (Counted c bw bh)
    then have "well_formed_line conv l"
      using check_line_well_formed [of conv l] by simp
    with Counted show ?thesis
      by (simp add: Cons.IH note_line_def)
  next
    case Flagged
    then have "\<not> well_formed_line conv l"
      by (simp add: check_line_flagged)
    with Flagged show ?thesis
      by (simp add: Cons.IH note_line_def replicate_app_Cons_same)
  qed
qed

lemma class_distribution_check_lines:
  "class_distribution (check_lines conv f lines a) c =
     class_distribution a c + length (filter (\<lambda>l. line_class conv l = Some c) lines)"
proof (induction lines arbitrary: a)
  case Nil
  then show ?case by simp
next
  case (Cons l lines)
  show ?case
  proof (cases "check_line conv l")
    case (Counted c' bw bh)
    then have "line_class conv l = Some c'"
      using check_line_class [of conv l c'] by blast
    with Counted show ?thesis
      by (simp add: Cons.IH note_line_def)
  next
    case Flagged
    then have "line_class conv l = None"
      by (simp add: check_line_flagged line_class_def)
    with Flagged show ?thesis
      by (simp add: Cons.IH note_line_def)
  qed
qed

lemma line_class_well_formed: "line_class conv l = Some c \<Longrightarrow> well_formed_line conv l"
  by (simp add: line_class_def split: if_splits)

lemma line_class_ill_formed: "\<not> well_formed_line conv l \<Longrightarrow> line_class conv l = None"
  by (simp add: line_class_def)

lemmas line_eval = py_split_def py_strip_def is_space_def dec_conversions_def dec_int_def
  dec_float_def digit_value_def well_formed_line_def line_class_def

lemma sample_line1: "line_class dec_conversions ''0 0.5 0.5 0.2 0.2\<newline>'' = Some 0"
  by (simp add: line_eval)

lemma sample_line2: "\<not> well_formed_line dec_conversions ''1 0.5 0.5 0.2\<newline>''"
  by (simp add: line_eval)

lemma sample_line3: "line_class dec_conversions ''1 0.1 0.1 0.1 0.1\<newline>'' = Some 1"
  by (simp add: line_eval)

lemma sample_line4: "\<not> well_formed_line dec_conversions ''7 0.1 0.1 0.1 0.1''"
  by (simp add: line_eval)

text \<open>
  Claim C5: the checker counts a line exactly when the line is well formed (five tokens, a
  class id of the table first, four floats in the unit interval after it). Every other line
  of a file puts the file on \<open>error_files\<close>, so the file is an error file exactly when one
  of its lines is ill formed (or it was one before); and every well-formed line of the file,
  whatever the other lines are, adds one to the count of its class.
\<close>

theorem C5_line_validation:
  "(check_line conv line \<noteq> Flagged \<longleftrightarrow> well_formed_line conv line)
   \<and> error_files (check_lines conv f lines a) =
       error_files a @ replicate (length (filter (\<lambda>l. \<not> well_formed_line conv l) lines)) f
   \<and> (f \<in> set (error_files (check_lines conv f lines a)) \<longleftrightarrow>
        f \<in> set (error_files a) \<or> (\<exists>l \<in> set lines. \<not> well_formed_line conv l))
   \<and> class_distribution (check_lines conv f lines a) c =
       class_distribution a c + length (filter (\<lambda>l. line_class conv l = Some c) lines)"
proof -
  have "f \<in> set (error_files (check_lines conv f lines a)) \<longleftrightarrow>
        f \<in> set (error_files a) \<or> (\<exists>l \<in> set lines. \<not> well_formed_line conv l)"
    by (auto simp add: error_files_check_lines filter_empty_conv)
  then show ?thesis
    using check_line_well_formed [of conv line] error_files_check_lines [of conv f lines a]
      class_distribution_check_lines [of conv f lines a c]
    by blast
qed

text \<open>A file with a line of four tokens and a line of class 7 between two well-formed
  lines: the file is flagged twice, and the two good lines are counted.\<close>

theorem C5_line_validation_witness:
  "error_files (check_lines dec_conversions ''img1'' sample_label_lines empty_audit)
     = [''img1'', ''img1'']
   \<and> class_distribution (check_lines dec_conversions ''img1'' sample_label_lines empty_audit) 0 = 1
   \<and> class_distribution (check_lines dec_conversions ''img1'' sample_label_lines empty_audit) 1 = 1
   \<and> class_distribution (check_lines dec_conversions ''img1'' sample_label_lines empty_audit) 7 = 0"
proof -
  note ev = sample_label_lines_def sample_line1 sample_line2 sample_line3 sample_line4
    line_class_well_formed [OF sample_line1] line_class_well_formed [OF sample_line3]
    line_class_ill_formed [OF sample_line2] line_class_ill_formed [OF sample_line4]
  have bad: "length (filter (\<lambda>l. \<not> well_formed_line dec_conversions l) sample_label_lines) = 2"
    by (simp add: ev)
  have c0: "length (filter (\<lambda>l. line_class dec_conversions l = Some 0) sample_label_lines) = 1"
    and c1: "length (filter (\<lambda>l. line_class dec_conversions l = Some 1) sample_label_lines) = 1"
    and c7: "length (filter (\<lambda>l. line_class dec_conversions l = Some 7) sample_label_lines) = 0"
    by (simp_all add: ev)
  show ?thesis
    using C5_line_validation [of dec_conversions "[]" "''img1''" sample_label_lines empty_audit 0]
      C5_line_validation [of dec_conversions "[]" "''img1''" sample_label_lines empty_audit 1]
      C5_line_validation [of dec_conversions "[]" "''img1''" sample_label_lines empty_audit 7]
    by (simp add: bad c0 c1 c7 empty_audit_def eval_nat_numeral)
qed

subsection \<open>The checker reads paired label files only\<close>

lemma rfind_dot_txt: "rfind_dot (k @ ''.txt'') = Some (length k)"
  by (simp add: rfind_dot_def)

lemma splitext_root_txt:
  "splitext_root (k @ ''.txt'') = (if list_ex (\<lambda>c. c \<noteq> CHR ''.'') k then k else k @ ''.txt'')"
  by (simp add: splitext_root_def rfind_dot_txt)

lemma endswith_txt: "endswith g ''.txt'' \<Longrightarrow> \<exists>g0. g = g0 @ ''.txt''"
  unfolding endswith_def by (metis append_take_drop_id)

lemma label_key_nondot:
  assumes "endswith g ''.txt''"
  shows "list_ex (\<lambda>c. c \<noteq> CHR ''.'') (splitext_root g)"
proof -
  from assms obtain g0 where "g = g0 @ ''.txt''"
    using endswith_txt by blast
  then show ?thesis
    by (simp add: splitext_root_txt list_ex_iff)
qed

lemma label_keys_nondot:
  "k \<in> set (label_keys names) \<Longrightarrow> list_ex (\<lambda>c. c \<noteq> CHR ''.'') k"
  by (auto simp add: label_keys_def label_key_nondot)

lemma key_of_opened_file:
  "k \<in> set (label_keys names) \<Longrightarrow> splitext_root (k @ ''.txt'') = k"
  by (simp add: splitext_root_txt label_keys_nondot)

lemma check_label_file_cong:
  "read_lines ds1 (k @ ''.txt'') = read_lines ds2 (k @ ''.txt'') \<Longrightarrow>
     check_label_file conv ds1 a k = check_label_file conv ds2 a k"
  by (simp add: check_label_file_def)

lemma foldl_check_cong:
  "(\<And>k. k \<in> set ks \<Longrightarrow> read_lines ds1 (k @ ''.txt'') = read_lines ds2 (k @ ''.txt'')) \<Longrightarrow>
     foldl (check_label_file conv ds1) a ks = foldl (check_label_file conv ds2) a ks"
proof (induction ks arbitrary: a)
  case Nil
  then show ?case by simp
next
  case (Cons k ks)
  have "read_lines ds1 (k @ ''.txt'') = read_lines ds2 (k @ ''.txt'')"
    by (rule Cons.prems) simp
  then have head: "check_label_file conv ds1 a k = check_label_file conv ds2 a k"
    by (rule check_label_file_cong)
  have tail: "foldl (check_label_file conv ds1) (check_label_file conv ds2 a k) ks =
      foldl (check_label_file conv ds2) (check_label_file conv ds2 a k) ks"
  proof (rule Cons.IH)
    fix k' assume "k' \<in> set ks"
    then show "read_lines ds1 (k' @ ''.txt'') = read_lines ds2 (k' @ ''.txt'')"
      by (intro Cons.prems) simp
  qed
  show ?case
    by (simp only: foldl_Cons head tail)
qed

lemma error_files_check_label_file:
  "set (error_files (check_label_file conv ds a k)) \<subseteq> set (error_files a) \<union> {k}"
  by (auto simp add: check_label_file_def error_files_check_lines split: option.splits)

lemma error_files_foldl:
  "set (error_files (foldl (check_label_file conv ds) a ks)) \<subseteq> set (error_files a) \<union> set ks"
proof (induction ks arbitrary: a)
  case Nil
  then show ?case by simp
next
  case (Cons k ks)
  show ?case
    using Cons.IH [of "check_label_file conv ds a k"] error_files_check_label_file [of conv ds a k]
    by auto
qed

lemma check_yolo_dataset_dirs:
  assumes "images_dir ds = Some image_names" and "labels_dir ds = Some label_names"
  shows "check_yolo_dataset conv ds =
           summary (labels_without_image ds) (images_without_label ds)
             (foldl (check_label_file conv ds) empty_audit (paired_keys ds))"
  using assms
  by (simp add: check_yolo_dataset_def paired_keys_def labels_without_image_def
      images_without_label_def names_in_def Let_def)

lemma counters_summary: "counters (summary mi ml a) = a"
  by (simp add: summary_def)

lemma passed_summary: "passed (summary mi ml a) \<longleftrightarrow> mi = [] \<and> ml = [] \<and> error_files a = []"
  by (simp add: summary_def)

lemma warned_summary:
  "mi \<noteq> [] \<Longrightarrow> WarnMissingImages (length mi) (take 5 mi) \<in> set (report (summary mi ml a))"
  by (simp add: summary_def pairing_warnings_def)

lemmas name_eval = image_keys_def label_keys_def is_image_name_def endswith_def lower_def
  lower_char_def splitext_root_def rfind_dot_def

lemma orphan_keys:
  "image_keys [''a.jpg''] = [''a'']" "label_keys [''a.txt'', ''orphan.txt''] = [''a'', ''orphan'']"
  by (simp_all add: name_eval)

lemma orphan_sets:
  "labels_without_image orphan_dataset = [''orphan'']"
  "images_without_label orphan_dataset = []"
  "paired_keys orphan_dataset = [''a'']"
  by (simp_all add: labels_without_image_def images_without_label_def paired_keys_def
      names_in_def orphan_dataset_def orphan_keys)

lemma orphan_audit:
  "check_label_file dec_conversions orphan_dataset empty_audit ''a'' =
     note_line ''a'' empty_audit (Counted 0 (Finite (1/5)) (Finite (1/5)))"
  by (simp add: check_label_file_def orphan_dataset_def check_line_def line_eval class_ids)

lemma error_files_empty_audit: "error_files empty_audit = []"
  by (simp add: empty_audit_def)

lemma orphan_flagged: "flagged_files dec_conversions orphan_dataset = []"
  by (simp add: flagged_files_def orphan_sets orphan_audit note_line_def error_files_empty_audit)

text \<open>
  Claim C9: a file \<open>f\<close> of the label directory whose key has no image is reported as a
  label without image, and the check fails; but the file is never read: whatever its content
  is replaced by, the whole outcome of the check (verdict, report, class distribution, box
  sizes, error files) is the same, and its key is not among the error files.
\<close>

theorem C9_unpaired_label_not_read:
  assumes "images_dir ds = Some image_names" and "labels_dir ds = Some label_names"
    and "f \<in> set label_names" and "endswith f ''.txt''"
    and "splitext_root f \<notin> set (image_keys image_names)"
  shows "check_yolo_dataset conv (ds\<lparr>read_lines := (read_lines ds)(f := content)\<rparr>) =
           check_yolo_dataset conv ds
     \<and> splitext_root f \<in> set (labels_without_image ds)
     \<and> splitext_root f \<notin> set (error_files (counters (check_yolo_dataset conv ds)))
     \<and> \<not> passed (check_yolo_dataset conv ds)
     \<and> WarnMissingImages (length (labels_without_image ds)) (take 5 (labels_without_image ds))
         \<in> set (report (check_yolo_dataset conv ds))"
proof -
  let ?ds' = "ds\<lparr>read_lines := (read_lines ds)(f := content)\<rparr>"
  have paired: "set (paired_keys ds) \<subseteq> set (label_keys label_names) \<inter> set (image_keys image_names)"
    using assms(1,2) by (auto simp add: paired_keys_def names_in_def)
  have not_opened: "k @ ''.txt'' \<noteq> f" if "k \<in> set (paired_keys ds)" for k
  proof
    assume "k @ ''.txt'' = f"
    moreover from that paired have "splitext_root (k @ ''.txt'') = k"
      using key_of_opened_file [of k label_names] by blast
    ultimately have "splitext_root f = k" by simp
    with that paired assms(5) show False by blast
  qed
  have fold_eq: "foldl (check_label_file conv ?ds') empty_audit (paired_keys ds) =
      foldl (check_label_file conv ds) empty_audit (paired_keys ds)"
    by (rule foldl_check_cong) (use not_opened in auto)
  have sets: "labels_without_image ?ds' = labels_without_image ds"
    "images_without_label ?ds' = images_without_label ds" "paired_keys ?ds' = paired_keys ds"
    by (simp_all add: labels_without_image_def images_without_label_def paired_keys_def)
  have dirs': "images_dir ?ds' = Some image_names" "labels_dir ?ds' = Some label_names"
    using assms(1,2) by simp_all
  have same: "check_yolo_dataset conv ?ds' = check_yolo_dataset conv ds"
    by (simp only: check_yolo_dataset_dirs [OF dirs'] check_yolo_dataset_dirs [OF assms(1,2)]
        sets fold_eq)
  have key: "splitext_root f \<in> set (label_keys label_names)"
    using assms(3,4) by (simp add: label_keys_def)
  then have dangling: "splitext_root f \<in> set (labels_without_image ds)"
    using assms(1,2,5) by (simp add: labels_without_image_def names_in_def)
  have "set (error_files (counters (check_yolo_dataset conv ds))) \<subseteq> set (paired_keys ds)"
    using error_files_foldl [of conv ds empty_audit "paired_keys ds"]
    by (simp add: check_yolo_dataset_dirs [OF assms(1,2)] counters_summary empty_audit_def)
  with paired assms(5) have unflagged:
    "splitext_root f \<notin> set (error_files (counters (check_yolo_dataset conv ds)))"
    by blast
  from dangling have ne: "labels_without_image ds \<noteq> []"
    by auto
  have failed: "\<not> passed (check_yolo_dataset conv ds)"
    using ne by (simp add: check_yolo_dataset_dirs [OF assms(1,2)] passed_summary)
  have reported: "WarnMissingImages (length (labels_without_image ds)) (take 5 (labels_without_image ds))
      \<in> set (report (check_yolo_dataset conv ds))"
    using ne by (simp add: check_yolo_dataset_dirs [OF assms(1,2)] warned_summary)
  show ?thesis
    using same dangling unflagged failed reported by blast
qed

theorem C9_unpaired_label_not_read_witness:
  "check_yolo_dataset dec_conversions
       (orphan_dataset\<lparr>read_lines := (read_lines orphan_dataset)(''orphan.txt'' := Some [''0 0.5 0.5 0.2 0.2''])\<rparr>)
     = check_yolo_dataset dec_conversions orphan_dataset
   \<and> error_files (counters (check_yolo_dataset dec_conversions orphan_dataset)) = []
   \<and> class_distribution (counters (check_yolo_dataset dec_conversions orphan_dataset)) 0 = 1
   \<and> class_distribution (counters (check_yolo_dataset dec_conversions orphan_dataset)) 7 = 0
   \<and> \<not> passed (check_yolo_dataset dec_conversions orphan_dataset)
   \<and> report (check_yolo_dataset dec_conversions orphan_dataset) =
       [WarnMissingImages 1 [''orphan''], ProblemMissingImages 1]"
proof -
  have d: "images_dir orphan_dataset = Some [''a.jpg'']"
    "labels_dir orphan_dataset = Some [''a.txt'', ''orphan.txt'']"
    by (simp_all add: orphan_dataset_def)
  have f: "''orphan.txt'' \<in> set [''a.txt'', ''orphan.txt'']" "endswith ''orphan.txt'' ''.txt''"
    "splitext_root ''orphan.txt'' \<notin> set (image_keys [''a.jpg''])"
    by (simp_all add: name_eval)
  have out: "check_yolo_dataset dec_conversions orphan_dataset =
      summary [''orphan''] [] (note_line ''a'' empty_audit (Counted 0 (Finite (1/5)) (Finite (1/5))))"
    by (simp add: check_yolo_dataset_dirs [OF d] orphan_sets orphan_audit)
  show ?thesis
    using C9_unpaired_label_not_read [OF d f, of dec_conversions "Some [''0 0.5 0.5 0.2 0.2'']"]
    by (simp add: out summary_def pairing_warnings_def note_line_def empty_audit_def)
qed

subsection \<open>The verdict of the checker\<close>

lemma report_summary:
  "report (summary mi ml a) =
     pairing_warnings mi ml @
     (if mi = [] \<and> ml = [] \<and> error_files a = [] then [CheckPassed]
      else (if mi \<noteq> [] then [ProblemMissingImages (length mi)] else [])
         @ (if ml \<noteq> [] then [ProblemMissingLabels (length ml)] else [])
         @ (if error_files a \<noteq> [] then [ProblemErrorFiles (length (remdups (error_files a)))]
            else []))"
  by (simp add: summary_def)

lemma paired_sets:
  "labels_without_image paired_dataset = []"
  "images_without_label paired_dataset = []"
  "paired_keys paired_dataset = [''a'']"
  by (simp_all add: labels_without_image_def images_without_label_def paired_keys_def
      names_in_def paired_dataset_def name_eval)

lemma paired_audit:
  "check_label_file dec_conversions paired_dataset empty_audit ''a'' =
     note_line ''a'' empty_audit (Counted 0 (Finite (1/5)) (Finite (1/5)))"
  by (simp add: check_label_file_def paired_dataset_def check_line_def line_eval class_ids)

lemma paired_flagged: "flagged_files dec_conversions paired_dataset = []"
  by (simp add: flagged_files_def paired_sets paired_audit note_line_def error_files_empty_audit)

text \<open>
  Claim C4 as stated fails: in a dataset directory with an empty \<open>labels\<close> subdirectory and
  no \<open>images\<close> subdirectory there is no label without image, no image without label and no
  error file, yet the checker answers fail (it returns before it compares anything).
\<close>

theorem C4_counterexample:
  "\<not> passed (check_yolo_dataset dec_conversions no_images_dir)
   \<and> labels_without_image no_images_dir = []
   \<and> images_without_label no_images_dir = []
   \<and> flagged_files dec_conversions no_images_dir = []"
  by (simp add: check_yolo_dataset_def no_images_dir_def labels_without_image_def
      images_without_label_def flagged_files_def paired_keys_def names_in_def image_keys_def
      label_keys_def empty_audit_def)

text \<open>
  Claim C4, amended: when both subdirectories exist, the checker passes (exit code 0) exactly when the
  label keys without image, the image keys without label and the error files are all empty;
  its report then ends with the pass line, and otherwise lists, after the pairing warnings
  (size and first five members of each non-empty dangling set), the size of each non-empty
  set. When a subdirectory is missing it fails without computing the sets.
\<close>

theorem C4_verdict:
  "(images_dir ds \<noteq> None \<and> labels_dir ds \<noteq> None \<longrightarrow>
      (passed (check_yolo_dataset conv ds) \<longleftrightarrow>
         labels_without_image ds = [] \<and> images_without_label ds = []
         \<and> flagged_files conv ds = [])
      \<and> report (check_yolo_dataset conv ds) =
          pairing_warnings (labels_without_image ds) (images_without_label ds) @
          (if passed (check_yolo_dataset conv ds) then [CheckPassed]
           else (if labels_without_image ds \<noteq> []
                 then [ProblemMissingImages (length (labels_without_image ds))] else [])
              @ (if images_without_label ds \<noteq> []
                 then [ProblemMissingLabels (length (images_without_label ds))] else [])
              @ (if flagged_files conv ds \<noteq> []
                 then [ProblemErrorFiles (length (remdups (flagged_files conv ds)))] else [])))
   \<and> (images_dir ds = None \<or> labels_dir ds = None \<longrightarrow>
        \<not> passed (check_yolo_dataset conv ds))
   \<and> (exit_code conv ds = 0 \<longleftrightarrow> passed (check_yolo_dataset conv ds))"
proof -
  have a: "passed (check_yolo_dataset conv ds) \<longleftrightarrow>
         labels_without_image ds = [] \<and> images_without_label ds = []
         \<and> flagged_files conv ds = []"
    if "images_dir ds = Some i" "labels_dir ds = Some l" for i l
    by (simp add: check_yolo_dataset_dirs [OF that] passed_summary flagged_files_def)
  have b: "report (check_yolo_dataset conv ds) =
          pairing_warnings (labels_without_image ds) (images_without_label ds) @
          (if passed (check_yolo_dataset conv ds) then [CheckPassed]
           else (if labels_without_image ds \<noteq> []
                 then [ProblemMissingImages (length (labels_without_image ds))] else [])
              @ (if images_without_label ds \<noteq> []
                 then [ProblemMissingLabels (length (images_without_label ds))] else [])
              @ (if flagged_files conv ds \<noteq> []
                 then [ProblemErrorFiles (length (remdups (flagged_files conv ds)))] else []))"
    if "images_dir ds = Some i" "labels_dir ds = Some l" for i l
    unfolding a [OF that]
    by (simp only: check_yolo_dataset_dirs [OF that] report_summary flagged_files_def)
  have c: "\<not> passed (check_yolo_dataset conv ds)" if "images_dir ds = None \<or> labels_dir ds = None"
    using that by (auto simp add: check_yolo_dataset_def split: option.splits)
  have d: "exit_code conv ds = 0 \<longleftrightarrow> passed (check_yolo_dataset conv ds)"
    by (simp add: exit_code_def)
  show ?thesis
    using a b c d by blast
qed

theorem C4_verdict_witness:
  "passed (check_yolo_dataset dec_conversions paired_dataset)
   \<and> exit_code dec_conversions paired_dataset = 0
   \<and> exit_code dec_conversions orphan_dataset = 1
   \<and> report (check_yolo_dataset dec_conversions paired_dataset) = [CheckPassed]
   \<and> \<not> passed (check_yolo_dataset dec_conversions orphan_dataset)
   \<and> report (check_yolo_dataset dec_conversions orphan_dataset) =
       [WarnMissingImages 1 [''orphan''], ProblemMissingImages 1]"
proof -
  have p: "images_dir paired_dataset \<noteq> None \<and> labels_dir paired_dataset \<noteq> None"
    by (simp add: paired_dataset_def)
  have q: "images_dir orphan_dataset \<noteq> None \<and> labels_dir orphan_dataset \<noteq> None"
    by (simp add: orphan_dataset_def)
  show ?thesis
    using C4_verdict [of paired_dataset dec_conversions] C4_verdict [of orphan_dataset dec_conversions]
      p q
    by (simp add: paired_sets paired_flagged orphan_sets orphan_flagged pairing_warnings_def
        exit_code_def)
qed

subsection \<open>Copied images are named with the extension jpg\<close>

lemma copy_image_first:
  "copy_image inp k exts out =
     (case first_existing inp k exts of
        None \<Rightarrow> out
      | Some e \<Rightarrow> out\<lparr>split_images := (split_images out)(k @ ''.jpg'' := input_images inp (k @ e))\<rparr>)"
  by (induction exts) (auto simp add: first_existing_def split: option.splits)

lemma first_existing_Some:
  "first_existing inp k exts = Some e \<Longrightarrow> e \<in> set exts \<and> input_images inp (k @ e) \<noteq> None"
  unfolding first_existing_def by (auto simp add: find_Some_iff)

lemma first_existing_None:
  "first_existing inp k exts = None \<longleftrightarrow> (\<forall>e \<in> set exts. input_images inp (k @ e) = None)"
  unfolding first_existing_def by (auto simp add: find_None_iff)

lemma first_existing_only:
  assumes "ext \<in> set exts" and "input_images inp (k @ ext) \<noteq> None"
    and "\<And>e. e \<in> set exts \<Longrightarrow> e \<noteq> ext \<Longrightarrow> input_images inp (k @ e) = None"
  shows "first_existing inp k exts = Some ext"
proof (cases "first_existing inp k exts")
  case None
  with assms(1,2) show ?thesis by (simp add: first_existing_None)
next
  case (Some e)
  with assms(3) [of e] show ?thesis
    using first_existing_Some [OF Some] by auto
qed

lemma split_images_copy_label: "split_images (copy_label inp k out) = split_images out"
  by (simp add: copy_label_def split: option.split)

lemma split_labels_copy_image: "split_labels (copy_image inp k exts out) = split_labels out"
  by (simp add: copy_image_first split: option.split)

lemma split_images_copy_files:
  "split_images (copy_files inp files out) (k @ ''.jpg'') =
     (if k \<in> set files \<and> first_existing inp k image_extensions \<noteq> None
      then input_images inp (k @ the (first_existing inp k image_extensions))
      else split_images out (k @ ''.jpg''))"
proof (induction files arbitrary: out)
  case Nil
  then show ?case by simp
next
  case (Cons fb files)
  show ?case
    by (auto simp add: Cons.IH split_images_copy_label copy_image_first split: option.splits)
qed

lemma split_labels_copy_files:
  "split_labels (copy_files inp files out) (k @ ''.txt'') =
     (if k \<in> set files \<and> input_labels inp (k @ ''.txt'') \<noteq> None
      then input_labels inp (k @ ''.txt'')
      else split_labels out (k @ ''.txt''))"
proof (induction files arbitrary: out)
  case Nil
  then show ?case by simp
next
  case (Cons fb files)
  show ?case
    by (auto simp add: Cons.IH split_labels_copy_image copy_label_def split: option.splits)
qed

text \<open>
  Claim C10: \<open>copy_files\<close> is the loop that \<open>split_yolo_dataset\<close> runs over the keys of
  each split, into the empty directories of that split. For every key \<open>k\<close> of the split whose image exists under some candidate
  extension, the destination holds the file \<open>k.jpg\<close>, and its content is, unchanged, the
  content of the source file with the first candidate extension that exists; when only one
  candidate exists (say \<open>k.png\<close>), the file \<open>k.jpg\<close> holds the bytes of that file. The
  label \<open>k.txt\<close>, when the input has it, is copied unchanged beside it.
\<close>

theorem C10_image_copied_as_jpg:
  assumes "k \<in> set files" and "ext \<in> set image_extensions"
    and "input_images inp (k @ ext) = Some content"
  shows "(\<exists>e c. first_existing inp k image_extensions = Some e \<and> e \<in> set image_extensions
            \<and> input_images inp (k @ e) = Some c
            \<and> split_images (copy_files inp files out) (k @ ''.jpg'') = Some c)
     \<and> ((\<forall>e \<in> set image_extensions. e \<noteq> ext \<longrightarrow> input_images inp (k @ e) = None) \<longrightarrow>
          split_images (copy_files inp files out) (k @ ''.jpg'') = Some content)
     \<and> (input_labels inp (k @ ''.txt'') = Some l \<longrightarrow>
          split_labels (copy_files inp files out) (k @ ''.txt'') = Some l)
     \<and> (split_yolo_dataset rng perm42 listing inp train_ratio val_ratio test_ratio =
            Inr (train_dir, val_dir, test_dir) \<longrightarrow>
          (\<exists>train_files val_files test_files.
             assign_splits rng perm42 (map splitext_root (filter is_image_name listing))
               train_ratio val_ratio test_ratio = Inr (train_files, val_files, test_files)
             \<and> train_dir = copy_files inp train_files empty_split
             \<and> val_dir = copy_files inp val_files empty_split
             \<and> test_dir = copy_files inp test_files empty_split))"
proof -
  have ex: "first_existing inp k image_extensions \<noteq> None"
    using assms(2,3) by (auto simp add: first_existing_None)
  then obtain e where e: "first_existing inp k image_extensions = Some e"
    by blast
  from first_existing_Some [OF e] obtain c
    where c: "e \<in> set image_extensions" "input_images inp (k @ e) = Some c"
    by blast
  have img: "split_images (copy_files inp files out) (k @ ''.jpg'') = Some c"
    using assms(1) e c by (simp add: split_images_copy_files)
  have only: "split_images (copy_files inp files out) (k @ ''.jpg'') = Some content"
    if "\<forall>e \<in> set image_extensions. e \<noteq> ext \<longrightarrow> input_images inp (k @ e) = None"
  proof -
    have "first_existing inp k image_extensions = Some ext"
      using assms(2,3) that by (intro first_existing_only) auto
    with assms(1,3) show ?thesis
      by (simp add: split_images_copy_files)
  qed
  have lab: "split_labels (copy_files inp files out) (k @ ''.txt'') = Some l"
    if "input_labels inp (k @ ''.txt'') = Some l"
    using assms(1) that by (simp add: split_labels_copy_files)
  have whole: "\<exists>train_files val_files test_files.
             assign_splits rng perm42 (map splitext_root (filter is_image_name listing))
               train_ratio val_ratio test_ratio = Inr (train_files, val_files, test_files)
             \<and> train_dir = copy_files inp train_files empty_split
             \<and> val_dir = copy_files inp val_files empty_split
             \<and> test_dir = copy_files inp test_files empty_split"
    if "split_yolo_dataset rng perm42 listing inp train_ratio val_ratio test_ratio =
            Inr (train_dir, val_dir, test_dir)"
    using that by (auto simp add: split_yolo_dataset_def Let_def split: sum.splits)
  show ?thesis
    using e c img only lab whole by blast
qed

theorem C10_image_copied_as_jpg_witness:
  "split_images (copy_files png_input [''m'', ''k''] empty_split) ''k.jpg'' = Some ''PNG bytes of k''
   \<and> split_labels (copy_files png_input [''m'', ''k''] empty_split) ''k.txt'' = Some ''0 0.5 0.5 0.2 0.2''
   \<and> split_images (copy_files png_input [''m'', ''k''] empty_split) ''m.jpg'' = Some ''JPEG bytes of m''"
proof -
  have k: "''k'' \<in> set [''m'', ''k'']" and m: "''m'' \<in> set [''m'', ''k'']"
    and png: "''.png'' \<in> set image_extensions" and jpg: "''.JPG'' \<in> set image_extensions"
    by (simp_all add: image_extensions_def)
  have kc: "input_images png_input (''k'' @ ''.png'') = Some ''PNG bytes of k''"
    and mc: "input_images png_input (''m'' @ ''.JPG'') = Some ''JPEG bytes of m''"
    by (simp_all add: png_input_def)
  have konly: "\<forall>e \<in> set image_extensions. e \<noteq> ''.png'' \<longrightarrow> input_images png_input (''k'' @ e) = None"
    and monly: "\<forall>e \<in> set image_extensions. e \<noteq> ''.JPG'' \<longrightarrow> input_images png_input (''m'' @ e) = None"
    by (simp_all add: image_extensions_def png_input_def)
  have kl: "input_labels png_input (''k'' @ ''.txt'') = Some ''0 0.5 0.5 0.2 0.2''"
    by (simp add: png_input_def)
  show ?thesis
    using C10_image_copied_as_jpg [OF k png kc, of empty_split "''0 0.5 0.5 0.2 0.2''"]
      C10_image_copied_as_jpg [OF m jpg mc, of empty_split "[]"] konly monly kl
    by simp
qed

subsection \<open>The ratio split\<close>

lemma ceiling_rat_numeral_div:
  "\<lceil>(numeral a :: rat) / numeral b\<rceil> = - ((- numeral a) div numeral b)"
proof -
  have "\<lfloor>of_int (- numeral a) / (of_int (numeral b) :: rat)\<rfloor> = (- numeral a) div numeral b"
    by (rule floor_divide_of_int_eq)
  then show ?thesis
    by (simp add: ceiling_def)
qed

lemma ceiling_rat_one_div: "\<lceil>(1 :: rat) / numeral b\<rceil> = - ((- 1) div numeral b)"
proof -
  have "\<lfloor>of_int (- 1) / (of_int (numeral b) :: rat)\<rfloor> = (- 1) div numeral b"
    by (rule floor_divide_of_int_eq)
  then show ?thesis
    by (simp add: ceiling_def)
qed

lemmas ceiling_eval = ceiling_rat_numeral_div ceiling_rat_one_div

lemma permutes_identity: "permutes_indices identity_perm"
  by (simp add: permutes_indices_def identity_perm_def)

lemma mset_rotate1_eq: "mset (rotate1 xs) = mset xs"
  by (cases xs) simp_all

lemma permutes_rotate: "permutes_indices rotate_perm"
  unfolding permutes_indices_def rotate_perm_def by (simp only: mset_rotate1_eq) simp

lemma length_perm: "permutes_indices perm \<Longrightarrow> length (perm n) = n"
  unfolding permutes_indices_def by (metis length_upt mset_eq_length minus_nat.diff_0)

lemma mset_map_perm:
  assumes "permutes_indices perm"
  shows "mset (map (\<lambda>i. xs ! i) (perm (length xs))) = mset xs"
proof -
  have "mset (map (\<lambda>i. xs ! i) (perm (length xs))) = image_mset (\<lambda>i. xs ! i) (mset [0..<length xs])"
    using assms by (simp add: permutes_indices_def)
  also have "\<dots> = mset (map (\<lambda>i. xs ! i) [0..<length xs])"
    by simp
  also have "\<dots> = mset xs"
    by (simp add: map_nth)
  finally show ?thesis .
qed

lemma mset_shuffle: "permutes_indices rng \<Longrightarrow> mset (shuffle rng xs) = mset xs"
  unfolding shuffle_def by (rule mset_map_perm)

lemma length_shuffle: "permutes_indices rng \<Longrightarrow> length (shuffle rng xs) = length xs"
  by (simp add: shuffle_def length_perm)

text \<open>The two parts of a library split are the whole permutation, cut at \<open>n_test\<close>.\<close>

lemma train_test_split_cut:
  assumes "permutes_indices perm" and "train_test_split perm xs ts = Inr (tr, te)"
  shows "\<exists>k. tr = map (\<lambda>i. xs ! i) (drop k (perm (length xs)))
           \<and> te = map (\<lambda>i. xs ! i) (take k (perm (length xs)))"
proof -
  let ?p = "perm (length xs)"
  have len: "length ?p = length xs"
    by (rule length_perm [OF assms(1)])
  from assms(2) obtain product n_test
    where "fl_mul_int ts (int (length xs)) = Inr product" and "py_ceil product = Inr n_test"
      and tr: "tr = map (\<lambda>i. xs ! i)
                 (drop (nat n_test) (take (nat (n_test + (int (length xs) - n_test))) ?p))"
      and te: "te = map (\<lambda>i. xs ! i) (take (nat n_test) ?p)"
    by (auto simp add: train_test_split_def Let_def split: if_splits sum.splits)
  have "take (nat (n_test + (int (length xs) - n_test))) ?p = ?p"
    using len by simp
  with tr te show ?thesis
    by auto
qed

lemma train_test_split_parts:
  assumes "permutes_indices perm" and "train_test_split perm xs ts = Inr (tr, te)"
  shows "mset tr + mset te = mset xs"
proof -
  let ?p = "perm (length xs)"
  from train_test_split_cut [OF assms] obtain k
    where tr: "tr = map (\<lambda>i. xs ! i) (drop k ?p)" and te: "te = map (\<lambda>i. xs ! i) (take k ?p)"
    by blast
  have "mset tr + mset te = mset (map (\<lambda>i. xs ! i) (take k ?p @ drop k ?p))"
    unfolding tr te by (simp only: map_append mset_append add.commute)
  also have "\<dots> = mset xs"
    by (simp only: append_take_drop_id mset_map_perm [OF assms(1)])
  finally show ?thesis .
qed

lemma assign_splits_parts:
  assumes "permutes_indices rng" and "permutes_indices perm42"
    and "assign_splits rng perm42 xs train_ratio val_ratio test_ratio = Inr (tr, v, te)"
  shows "mset tr + mset v + mset te = mset xs"
proof -
  from assms(3) obtain temp adjusted
    where first: "train_test_split perm42 (shuffle rng xs) (fl_add val_ratio test_ratio) = Inr (tr, temp)"
      and second: "train_test_split perm42 temp adjusted = Inr (v, te)"
    by (auto simp add: assign_splits_def Let_def split: if_splits sum.splits prod.splits)
  have "mset tr + mset v + mset te = mset tr + mset temp"
    using train_test_split_parts [OF assms(2) second] by (simp add: add.assoc)
  also have "\<dots> = mset (shuffle rng xs)"
    by (rule train_test_split_parts [OF assms(2) first])
  also have "\<dots> = mset xs"
    by (rule mset_shuffle [OF assms(1)])
  finally show ?thesis .
qed

text \<open>The floats of the examples: the ratios, their sums and quotients, and the products with
  the numbers of keys.\<close>

lemma round64_0: "round64 0 = Finite 0"
  by (simp add: round64_def)

lemma round64_neg: "round64 (- q) = fl_neg (round64 q)"
  by (simp add: round64_def Let_def)

lemma round64_7_10: "round64 (7 / 10) = Finite (3152519739159347 / 4503599627370496)"
  by (subst round64_normal [where e = "-1"]) (simp_all add: fl_eval)

lemma round64_3_20: "round64 (3 / 20) = Finite (5404319552844595 / 36028797018963968)"
  by (subst round64_normal [where e = "-3"]) (simp_all add: fl_eval)

lemma round64_4_5: "round64 (4 / 5) = Finite (3602879701896397 / 4503599627370496)"
  by (subst round64_normal [where e = "-1"]) (simp_all add: fl_eval)

lemma round64_1_5: "round64 (1 / 5) = Finite (3602879701896397 / 18014398509481984)"
  by (subst round64_normal [where e = "-3"]) (simp_all add: fl_eval)

lemma round64_1_10: "round64 (1 / 10) = Finite (3602879701896397 / 36028797018963968)"
  by (subst round64_normal [where e = "-4"]) (simp_all add: fl_eval)

lemma round64_70001: "round64 (70001 / 100000) = Finite (3152564775155621 / 4503599627370496)"
  by (subst round64_normal [where e = "-1"]) (simp_all add: fl_eval)

lemma round64_tolerance: "round64 (1 / 100000) = Finite (5902958103587057 / 590295810358705651712)"
  by (subst round64_normal [where e = "-17"]) (simp_all add: fl_eval)

lemma round64_sum_a: "round64 (30624477466119371 / 36028797018963968) =
    Finite (7656119366529843 / 9007199254740992)"
  by (subst round64_normal [where e = "-1"]) (simp_all add: fl_eval)

lemma round64_sum_b: "round64 (36028797018963967 / 36028797018963968) = Finite (1)"
  by (subst round64_normal [where e = "-1"]) (simp_all add: fl_eval)

lemma round64_sum_c: "round64 (5404319552844595 / 18014398509481984) =
    Finite (5404319552844595 / 18014398509481984)"
  by (subst round64_normal [where e = "-2"]) (simp_all add: fl_eval)

lemma round64_1: "round64 1 = Finite (1)"
  by (subst round64_normal [where e = "0"]) (simp_all add: fl_eval)

lemma round64_2: "round64 2 = Finite (2)"
  by (subst round64_normal [where e = "1"]) (simp_all add: fl_eval)

lemma round64_4: "round64 4 = Finite (4)"
  by (subst round64_normal [where e = "2"]) (simp_all add: fl_eval)

lemma round64_half: "round64 (1 / 2) = Finite (1 / 2)"
  by (subst round64_normal [where e = "-1"]) (simp_all add: fl_eval)

lemma round64_prod_2: "round64 (5404319552844595 / 9007199254740992) =
    Finite (5404319552844595 / 9007199254740992)"
  by (subst round64_normal [where e = "-1"]) (simp_all add: fl_eval)

lemma round64_prod_4: "round64 (5404319552844595 / 4503599627370496) =
    Finite (5404319552844595 / 4503599627370496)"
  by (subst round64_normal [where e = "0"]) (simp_all add: fl_eval)

lemma round64_sum_d: "round64 (18014398509481985 / 18014398509481984) = Finite (1)"
  by (subst round64_normal [where e = "0"]) (simp_all add: fl_eval)

lemma round64_prod_d: "round64 (3602879701896397 / 4503599627370496) =
    Finite (3602879701896397 / 4503599627370496)"
  by (subst round64_normal [where e = "-1"]) (simp_all add: fl_eval)

lemma round64_sum_e: "round64 (16212958658533785 / 18014398509481984) =
    Finite (2026619832316723 / 2251799813685248)"
  by (subst round64_normal [where e = "-1"]) (simp_all add: fl_eval)

lemma round64_sum_f: "round64 (36028797018963965 / 36028797018963968) =
    Finite (9007199254740991 / 9007199254740992)"
  by (subst round64_normal [where e = "-1"]) (simp_all add: fl_eval)

lemma round64_diff_f: "round64 (1 / 9007199254740992) = Finite (1 / 9007199254740992)"
  by (subst round64_normal [where e = "-53"]) (simp_all add: fl_eval)

lemma round64_sum_g: "round64 (10808639105689191 / 36028797018963968) =
    Finite (1351079888211149 / 4503599627370496)"
  by (subst round64_normal [where e = "-2"]) (simp_all add: fl_eval)

lemma round64_prod_g: "round64 (6755399441055745 / 2251799813685248) =
    Finite (6755399441055745 / 2251799813685248)"
  by (subst round64_normal [where e = "1"]) (simp_all add: fl_eval)

lemma round64_quot_v: "round64 (3602879701896397 / 5404319552844596) =
    Finite (6004799503160661 / 9007199254740992)"
  by (subst round64_normal [where e = "-1"]) (simp_all add: fl_eval)

lemma round64_quot_t: "round64 (3602879701896397 / 10808639105689192) =
    Finite (6004799503160661 / 18014398509481984)"
  by (subst round64_normal [where e = "-2"]) (simp_all add: fl_eval)

lemma round64_prod_t: "round64 (6004799503160661 / 4503599627370496) =
    Finite (6004799503160661 / 4503599627370496)"
  by (subst round64_normal [where e = "0"]) (simp_all add: fl_eval)

lemma round64_sum_h: "round64 (30624837754089563 / 36028797018963968) =
    Finite (7656209438522391 / 9007199254740992)"
  by (subst round64_normal [where e = "-1"]) (simp_all add: fl_eval)

lemma round64_sum_i: "round64 (36029157306934159 / 36028797018963968) =
    Finite (2251822331683385 / 2251799813685248)"
  by (subst round64_normal [where e = "0"]) (simp_all add: fl_eval)

lemma round64_diff_i: "round64 (22517998137 / 2251799813685248) =
    Finite (22517998137 / 2251799813685248)"
  by (subst round64_normal [where e = "-17"]) (simp_all add: fl_eval)

lemma round64_fix_d: "round64 (3602879701896397 / 18014398509481984) =
    Finite (3602879701896397 / 18014398509481984)"
  by (subst round64_normal [where e = "-3"]) (simp_all add: fl_eval)

lemmas split_values = round64_7_10 round64_3_20 round64_4_5 round64_1_5 round64_1_10
  round64_70001 round64_tolerance round64_sum_a round64_sum_b round64_sum_c round64_1 round64_2
  round64_4 round64_half round64_prod_2 round64_prod_4 round64_sum_d round64_prod_d
  round64_sum_e round64_sum_f round64_diff_f round64_sum_g round64_prod_g round64_quot_v
  round64_quot_t round64_prod_t round64_sum_h round64_sum_i round64_diff_i round64_fix_d

lemmas split_eval = assign_splits_def train_test_split_def shuffle_def identity_perm_def
  rotate_perm_def four_keys_def ceiling_eval Let_def fl_sub_def fl_div_def fl_mul_int_def
  int_to_float_def nearest_float_def round64_0 round64_neg split_values round64_10

text \<open>Four keys with the ratios \<open>(0.7, 0.15, 0.15)\<close>: the library splits take two of four
  positions and one of two, whatever the seeded permutations are.\<close>

lemma split_four:
  assumes "permutes_indices perm" and "length xs = 4"
  shows "train_test_split perm xs (Finite (5404319552844595 / 18014398509481984)) =
     Inr (map (\<lambda>i. xs ! i) (drop 2 (perm 4)), map (\<lambda>i. xs ! i) (take 2 (perm 4)))"
  using length_perm [OF assms(1), of 4]
  by (simp add: train_test_split_def assms(2) fl_mul_int_def int_to_float_def nearest_float_def
        split_values ceiling_eval Let_def)

lemma split_two:
  assumes "permutes_indices perm" and "length xs = 2"
  shows "train_test_split perm xs (Finite (1 / 2)) =
     Inr (map (\<lambda>i. xs ! i) (drop 1 (perm 2)), map (\<lambda>i. xs ! i) (take 1 (perm 2)))"
  using length_perm [OF assms(1), of 2]
  by (simp add: train_test_split_def assms(2) fl_mul_int_def int_to_float_def nearest_float_def
        split_values ceiling_eval Let_def)

lemma assign_four:
  assumes "permutes_indices rng" and "permutes_indices perm42" and "length xs = 4"
  shows "\<exists>tr v te.
      assign_splits rng perm42 xs (round64 (7 / 10)) (round64 (3 / 20)) (round64 (3 / 20)) = Inr (tr, v, te)
    \<and> tr = map (\<lambda>i. shuffle rng xs ! i) (drop 2 (perm42 4))
    \<and> length tr = 2 \<and> length v = 1 \<and> length te = 1"
proof -
  let ?sh = "shuffle rng xs"
  let ?tr = "map (\<lambda>i. ?sh ! i) (drop 2 (perm42 4))"
  let ?temp = "map (\<lambda>i. ?sh ! i) (take 2 (perm42 4))"
  let ?v = "map (\<lambda>i. ?temp ! i) (drop 1 (perm42 2))"
  let ?te = "map (\<lambda>i. ?temp ! i) (take 1 (perm42 2))"
  have len: "length ?sh = 4"
    using length_shuffle [OF assms(1), of xs] assms(3) by simp
  have l4: "length (perm42 4) = 4" and l2: "length (perm42 2) = 2"
    by (simp_all add: length_perm [OF assms(2)])
  have ltemp: "length ?temp = 2"
    using l4 by simp
  note first = split_four [OF assms(2) len]
  note second = split_two [OF assms(2) ltemp]
  have "assign_splits rng perm42 xs (round64 (7 / 10)) (round64 (3 / 20)) (round64 (3 / 20))
      = Inr (?tr, ?v, ?te)"
    by (simp add: assign_splits_def Let_def fl_sub_def fl_div_def round64_0 split_values
          first second)
  moreover have "length ?tr = 2" "length ?v = 1" "length ?te = 1"
    using l4 l2 by simp_all
  ultimately show ?thesis
    by blast
qed

lemma assign_identity_four:
  "assign_splits identity_perm identity_perm four_keys
      (round64 (7 / 10)) (round64 (3 / 20)) (round64 (3 / 20)) =
     Inr ([''c'', ''d''], [''b''], [''a''])"
  by (simp add: split_eval)

lemma assign_rotate_four:
  "assign_splits rotate_perm identity_perm four_keys
      (round64 (7 / 10)) (round64 (3 / 20)) (round64 (3 / 20)) =
     Inr ([''d'', ''a''], [''c''], [''b''])"
  by (simp add: split_eval)

lemma rotated_train_differs:
  "\<forall>c \<in> {0, 1, 2, 3 :: nat}. \<forall>d \<in> {0, 1, 2, 3}.
     set [four_keys ! c, four_keys ! d] \<noteq> set [[''b'', ''c'', ''d'', ''a''] ! c, [''b'', ''c'', ''d'', ''a''] ! d]"
  by (simp add: four_keys_def doubleton_eq_iff)

lemma shuffle_four:
  "shuffle identity_perm four_keys = four_keys"
  "shuffle rotate_perm four_keys = [''b'', ''c'', ''d'', ''a'']"
  by (simp_all add: shuffle_def identity_perm_def rotate_perm_def four_keys_def)

text \<open>
  Ten keys with the ratios \<open>(0.7, 0.2, 0.1)\<close>: the float sum \<open>0.2 + 0.1\<close> lies above
  \<open>0.3\<close>, its product with 10 above 3, and the splits have 6, 2 and 2 keys. Ratios that sum
  to \<open>1.00001\<close> are refused.
\<close>

lemma assign_ten:
  "assign_splits identity_perm identity_perm ten_keys
      (round64 (7 / 10)) (round64 (1 / 5)) (round64 (1 / 10)) =
     Inr ([''e'', ''f'', ''g'', ''h'', ''i'', ''j''], [''c'', ''d''], [''a'', ''b''])"
  by (simp add: split_eval ten_keys_def)

lemma assign_out_of_tolerance:
  "assign_splits rng perm42 xs (round64 (70001 / 100000)) (round64 (3 / 20)) (round64 (3 / 20))
     = Inl ValueError"
  by (simp add: assign_splits_def fl_sub_def round64_neg round64_0 split_values)

text \<open>
  Claim C6 as stated fails. With the ratios \<open>(0.7, 0.15, 0.15)\<close> a single key, and a pair
  of keys, are assigned to no split: the library split raises a ValueError because a train
  side would be empty. With the ratios \<open>(0.8, 0.2, 0.0)\<close>, which sum to 1, the second split
  raises for every input, its test fraction being 0.
\<close>

theorem C6_counterexample:
  "assign_splits identity_perm identity_perm [''a'']
       (round64 (7 / 10)) (round64 (3 / 20)) (round64 (3 / 20)) = Inl ValueError
   \<and> assign_splits identity_perm identity_perm [''a'', ''b'']
       (round64 (7 / 10)) (round64 (3 / 20)) (round64 (3 / 20)) = Inl ValueError
   \<and> assign_splits identity_perm identity_perm four_keys
       (round64 (4 / 5)) (round64 (1 / 5)) (Finite 0) = Inl ValueError"
  by (simp add: split_eval)

text \<open>
  Claim C6, amended: for keys without repetition and any ratios, those that sum to 1 among
  them, the assignment either raises an exception, and then assigns no key, or returns three
  lists that partition the input: their union is the input, they are pairwise disjoint, no
  key is repeated, and their lengths add up to the number of keys.
\<close>

theorem C6_partition:
  assumes "distinct image_files" and "permutes_indices rng" and "permutes_indices perm42"
  shows "(\<exists>e. assign_splits rng perm42 image_files train_ratio val_ratio test_ratio = Inl e)
     \<or> (\<exists>train_files val_files test_files.
           assign_splits rng perm42 image_files train_ratio val_ratio test_ratio =
             Inr (train_files, val_files, test_files)
           \<and> set train_files \<union> set val_files \<union> set test_files = set image_files
           \<and> set train_files \<inter> set val_files = {}
           \<and> set train_files \<inter> set test_files = {}
           \<and> set val_files \<inter> set test_files = {}
           \<and> distinct train_files \<and> distinct val_files \<and> distinct test_files
           \<and> length train_files + length val_files + length test_files = length image_files)"
proof (cases "assign_splits rng perm42 image_files train_ratio val_ratio test_ratio")
  case (Inl e)
  then show ?thesis by blast
next
  case (Inr triple)
  obtain tr v te where triple: "triple = (tr, v, te)"
    by (cases triple)
  note res = Inr [unfolded triple]
  from assign_splits_parts [OF assms(2,3) res]
  have m: "mset (tr @ v @ te) = mset image_files"
    by (simp add: add.assoc)
  then have d: "distinct (tr @ v @ te)"
    using assms(1) mset_eq_imp_distinct_iff by blast
  from m have s: "set (tr @ v @ te) = set image_files"
    by (rule mset_eq_setD)
  from m have l: "length (tr @ v @ te) = length image_files"
    by (rule mset_eq_length)
  have "set tr \<union> set v \<union> set te = set image_files"
    using s by auto
  moreover have "set tr \<inter> set v = {}" "set tr \<inter> set te = {}" "set v \<inter> set te = {}"
    using d by auto
  moreover have "distinct tr" "distinct v" "distinct te"
    using d by auto
  moreover have "length tr + length v + length te = length image_files"
    using l by simp
  ultimately show ?thesis
    using res by blast
qed

text \<open>Four keys are partitioned; a single key is refused.\<close>

theorem C6_partition_witness:
  "assign_splits rotate_perm identity_perm four_keys
       (round64 (7 / 10)) (round64 (3 / 20)) (round64 (3 / 20)) =
     Inr ([''d'', ''a''], [''c''], [''b''])
   \<and> set [''d'', ''a''] \<union> set [''c''] \<union> set [''b''] = set four_keys
   \<and> assign_splits rotate_perm identity_perm [''a'']
       (round64 (7 / 10)) (round64 (3 / 20)) (round64 (3 / 20)) = Inl ValueError"
proof -
  have d4: "distinct four_keys" and d1: "distinct [''a'']"
    by (simp_all add: four_keys_def)
  have one: "assign_splits rotate_perm identity_perm [''a'']
       (round64 (7 / 10)) (round64 (3 / 20)) (round64 (3 / 20)) = Inl ValueError"
    by (simp add: split_eval)
  show ?thesis
    using C6_partition [OF d4 permutes_rotate permutes_identity,
        of "round64 (7 / 10)" "round64 (3 / 20)" "round64 (3 / 20)"]
      C6_partition [OF d1 permutes_rotate permutes_identity,
        of "round64 (7 / 10)" "round64 (3 / 20)" "round64 (3 / 20)"]
    by (simp add: assign_rotate_four one)
qed

text \<open>
  Claim C3: the assignment is not reproducible. The seed 42 fixes the permutation of the two
  library splits, and with it the sizes; but the list is shuffled before by the generator of
  the module \<open>random\<close>, which is never seeded. Whatever permutation the seed 42 stands for,
  two runs over the same four keys with the same ratios, one whose shuffle leaves the list
  as it is and one whose shuffle rotates it, return train sets of the same size and different
  members.
\<close>

theorem C3_membership_depends_on_shuffle:
  assumes "permutes_indices perm42"
  shows "\<exists>tr1 v1 te1 tr2 v2 te2.
      assign_splits identity_perm perm42 four_keys
          (round64 (7 / 10)) (round64 (3 / 20)) (round64 (3 / 20)) = Inr (tr1, v1, te1)
    \<and> assign_splits rotate_perm perm42 four_keys
          (round64 (7 / 10)) (round64 (3 / 20)) (round64 (3 / 20)) = Inr (tr2, v2, te2)
    \<and> length tr1 = length tr2 \<and> length v1 = length v2 \<and> length te1 = length te2
    \<and> set tr1 \<noteq> set tr2"
proof -
  have l4: "length four_keys = 4"
    by (simp add: four_keys_def)
  from assign_four [OF permutes_identity assms l4]
  obtain tr1 v1 te1
    where r1: "assign_splits identity_perm perm42 four_keys
                 (round64 (7 / 10)) (round64 (3 / 20)) (round64 (3 / 20)) = Inr (tr1, v1, te1)"
      and t1: "tr1 = map (\<lambda>i. four_keys ! i) (drop 2 (perm42 4))"
      and l1: "length tr1 = 2" "length v1 = 1" "length te1 = 1"
    unfolding shuffle_four by blast
  from assign_four [OF permutes_rotate assms l4]
  obtain tr2 v2 te2
    where r2: "assign_splits rotate_perm perm42 four_keys
                 (round64 (7 / 10)) (round64 (3 / 20)) (round64 (3 / 20)) = Inr (tr2, v2, te2)"
      and t2: "tr2 = map (\<lambda>i. [''b'', ''c'', ''d'', ''a''] ! i) (drop 2 (perm42 4))"
      and l2: "length tr2 = 2" "length v2 = 1" "length te2 = 1"
    unfolding shuffle_four by blast
  have len: "length (perm42 4) = 4"
    by (rule length_perm [OF assms])
  then obtain p0 p1 p2 p3 where p: "perm42 4 = [p0, p1, p2, p3]"
    by (auto simp add: length_Suc_conv eval_nat_numeral)
  have "set (perm42 4) = set [0..<4]"
    using assms unfolding permutes_indices_def by (metis mset_eq_setD)
  moreover have "p2 \<in> set (perm42 4)" "p3 \<in> set (perm42 4)"
    unfolding p by simp_all
  ultimately have "p2 < 4" "p3 < 4"
    by simp_all
  then have "p2 \<in> {0, 1, 2, 3}" "p3 \<in> {0, 1, 2, 3}"
    by auto
  then have "set [four_keys ! p2, four_keys ! p3] \<noteq>
      set [[''b'', ''c'', ''d'', ''a''] ! p2, [''b'', ''c'', ''d'', ''a''] ! p3]"
    using rotated_train_differs by blast
  then have "set tr1 \<noteq> set tr2"
    unfolding t1 t2 p by simp
  then show ?thesis
    using r1 r2 l1 l2 by auto
qed

theorem C3_membership_depends_on_shuffle_witness:
  "assign_splits identity_perm identity_perm four_keys
       (round64 (7 / 10)) (round64 (3 / 20)) (round64 (3 / 20)) =
     Inr ([''c'', ''d''], [''b''], [''a''])
   \<and> assign_splits rotate_perm identity_perm four_keys
       (round64 (7 / 10)) (round64 (3 / 20)) (round64 (3 / 20)) =
     Inr ([''d'', ''a''], [''c''], [''b''])
   \<and> set [''c'', ''d''] \<noteq> set [''d'', ''a'']"
  using C3_membership_depends_on_shuffle [OF permutes_identity]
  by (simp add: assign_identity_four assign_rotate_four)

subsection \<open>PCB status rule\<close>

lemma scan_boxes_flags:
  "scan_boxes bs (f1, f3) =
     (f1 \<or> list_ex (\<lambda>b. cls b = 1) bs, f3 \<or> list_ex (\<lambda>b. cls b = 3) bs)"
  by (induction bs arbitrary: f1 f3) auto

text \<open>
  Claim C2: the code departs from the claim on a result without a box sequence. The
  docstring of \<open>_analyze_pcb_status\<close> names two answers, normal and abnormal, and
  \<open>predict_batch\<close> counts these two only; for a result that lacks the attribute \<open>boxes\<close>
  or has \<open>boxes = None\<close> the function answers a third word, where the claim says normal.
  On every result with a box sequence, the empty one among them, the answer is the one
  claimed: abnormal exactly when a class-1 and a class-3 detection co-occur, and normal
  otherwise; abnormal is answered for no other result.
\<close>

theorem C2_pcb_status:
  "analyze_pcb_status BoxesNone = ''unknown''
   \<and> analyze_pcb_status NoBoxesAttr = ''unknown''
   \<and> analyze_pcb_status BoxesNone \<noteq> ''normal''
   \<and> analyze_pcb_status NoBoxesAttr \<noteq> ''normal''
   \<and> analyze_pcb_status (Boxes boxes) = (if co_occur boxes then ''abnormal'' else ''normal'')
   \<and> analyze_pcb_status (Boxes []) = ''normal''
   \<and> (analyze_pcb_status result = ''abnormal'' \<longleftrightarrow> (\<exists>bs. result = Boxes bs \<and> co_occur bs))"
proof -
  have a: "analyze_pcb_status (Boxes bs) = (if co_occur bs then ''abnormal'' else ''normal'')"
    for bs
    by (simp add: analyze_pcb_status_def co_occur_def scan_boxes_flags conj_commute)
  have b: "analyze_pcb_status result = ''abnormal'' \<longleftrightarrow> (\<exists>bs. result = Boxes bs \<and> co_occur bs)"
  proof (cases result)
    case (Boxes bs)
    then show ?thesis using a [of bs] by simp
  qed (simp_all add: analyze_pcb_status_def)
  show ?thesis
    using a [of boxes] b by (simp add: analyze_pcb_status_def)
qed

theorem C2_pcb_status_witness:
  "analyze_pcb_status (Boxes [\<lparr>cls = 3, conf = 9/10\<rparr>, \<lparr>cls = 2, conf = 1/2\<rparr>, \<lparr>cls = 1, conf = 3/5\<rparr>])
     = ''abnormal''
   \<and> analyze_pcb_status (Boxes [\<lparr>cls = 3, conf = 9/10\<rparr>, \<lparr>cls = 2, conf = 1/2\<rparr>]) = ''normal''"
  using C2_pcb_status [of "[\<lparr>cls = 3, conf = 9/10\<rparr>, \<lparr>cls = 2, conf = 1/2\<rparr>, \<lparr>cls = 1, conf = 3/5\<rparr>]"]
        C2_pcb_status [of "[\<lparr>cls = 3, conf = 9/10\<rparr>, \<lparr>cls = 2, conf = 1/2\<rparr>]"]
  by (simp add: co_occur_def)

end
